theory Spec2Isabelle
  imports Complex_Main
begin

section \<open>JavaScript numbers\<close>

text \<open>
  The program computes on JavaScript numbers. A number is modelled as a finite real, the
  negative zero, one of the two infinities, or NaN. \<open>Num 0\<close> is the positive zero.

  There are two families of operations. The first, in this section, keeps the exact value
  of a finite result (rounding to 53 bits and underflow are not modelled) except at the top
  of the range: a finite result of magnitude at least \<open>2^1024 - 2^970\<close> is an infinity, as
  round-to-nearest gives for doubles. The summary is stated with it. The second, in the next
  section, rounds every finite result to the nearest double. The detectors are stated with
  it, since they compare what they compute with thresholds.
\<close>

datatype jsnum = Num real | NegZero | PInf | NInf | NaN

definition OVF :: real where
  "OVF = 2 ^ 1024 - 2 ^ 970"

text \<open>The sign bit; the real value of a finite number (0 elsewhere, where it is not read).\<close>

fun js_sign :: "jsnum \<Rightarrow> bool" where
  "js_sign (Num r) = (r < 0)"
| "js_sign NegZero = True"
| "js_sign PInf = False"
| "js_sign NInf = True"
| "js_sign NaN = False"

fun js_val :: "jsnum \<Rightarrow> real" where
  "js_val (Num r) = r"
| "js_val _ = 0"

fun js_isFinite :: "jsnum \<Rightarrow> bool" where
  "js_isFinite (Num r) = True"
| "js_isFinite NegZero = True"
| "js_isFinite _ = False"

definition js_zero :: "bool \<Rightarrow> jsnum" where
  "js_zero s = (if s then NegZero else Num 0)"

definition js_inf :: "bool \<Rightarrow> jsnum" where
  "js_inf s = (if s then NInf else PInf)"

text \<open>The result of a finite operation with exact value \<open>r\<close>; \<open>s\<close> is the sign of a zero result.\<close>

definition js_round :: "bool \<Rightarrow> real \<Rightarrow> jsnum" where
  "js_round s r =
     (if OVF \<le> r then PInf
      else if r \<le> - OVF then NInf
      else if r = 0 then js_zero s
      else Num r)"

fun js_neg :: "jsnum \<Rightarrow> jsnum" where
  "js_neg (Num r) = (if r = 0 then NegZero else Num (- r))"
| "js_neg NegZero = Num 0"
| "js_neg PInf = NInf"
| "js_neg NInf = PInf"
| "js_neg NaN = NaN"

fun js_add :: "jsnum \<Rightarrow> jsnum \<Rightarrow> jsnum" where
  "js_add NaN _ = NaN"
| "js_add _ NaN = NaN"
| "js_add PInf NInf = NaN"
| "js_add NInf PInf = NaN"
| "js_add PInf _ = PInf"
| "js_add _ PInf = PInf"
| "js_add NInf _ = NInf"
| "js_add _ NInf = NInf"
| "js_add NegZero NegZero = NegZero"
| "js_add a b = js_round False (js_val a + js_val b)"

definition js_sub :: "jsnum \<Rightarrow> jsnum \<Rightarrow> jsnum" where
  "js_sub a b = js_add a (js_neg b)"

definition js_mul :: "jsnum \<Rightarrow> jsnum \<Rightarrow> jsnum" where
  "js_mul a b =
     (let s = (js_sign a \<noteq> js_sign b) in
      if a = NaN \<or> b = NaN then NaN
      else if js_isFinite a \<and> js_isFinite b then js_round s (js_val a * js_val b)
      else if js_isFinite a \<and> js_val a = 0 then NaN
      else if js_isFinite b \<and> js_val b = 0 then NaN
      else js_inf s)"

definition js_div :: "jsnum \<Rightarrow> jsnum \<Rightarrow> jsnum" where
  "js_div a b =
     (let s = (js_sign a \<noteq> js_sign b) in
      if a = NaN \<or> b = NaN then NaN
      else if js_isFinite a \<and> js_isFinite b then
        (if js_val b = 0 then (if js_val a = 0 then NaN else js_inf s)
         else js_round s (js_val a / js_val b))
      else if js_isFinite a then js_zero s
      else if js_isFinite b then js_inf s
      else NaN)"

fun js_abs :: "jsnum \<Rightarrow> jsnum" where
  "js_abs (Num r) = Num \<bar>r\<bar>"
| "js_abs NegZero = Num 0"
| "js_abs PInf = PInf"
| "js_abs NInf = PInf"
| "js_abs NaN = NaN"

text \<open>\<open>Math.sqrt\<close> and \<open>Math.pow(x, 2)\<close>.\<close>

fun js_sqrt :: "jsnum \<Rightarrow> jsnum" where
  "js_sqrt (Num r) = (if r < 0 then NaN else Num (sqrt r))"
| "js_sqrt NegZero = NegZero"
| "js_sqrt PInf = PInf"
| "js_sqrt NInf = NaN"
| "js_sqrt NaN = NaN"

definition js_pow2 :: "jsnum \<Rightarrow> jsnum" where
  "js_pow2 x = js_mul x x"

text \<open>The comparisons \<open><\<close>, \<open>>\<close>, \<open><=\<close> and \<open>===\<close>: false as soon as one side is NaN.\<close>

fun js_lt :: "jsnum \<Rightarrow> jsnum \<Rightarrow> bool" where
  "js_lt NaN _ = False"
| "js_lt _ NaN = False"
| "js_lt _ NInf = False"
| "js_lt NInf _ = True"
| "js_lt PInf _ = False"
| "js_lt _ PInf = True"
| "js_lt a b = (js_val a < js_val b)"

definition js_gt :: "jsnum \<Rightarrow> jsnum \<Rightarrow> bool" where
  "js_gt a b = js_lt b a"

definition js_le :: "jsnum \<Rightarrow> jsnum \<Rightarrow> bool" where
  "js_le a b = (a \<noteq> NaN \<and> b \<noteq> NaN \<and> \<not> js_lt b a)"

fun js_seq :: "jsnum \<Rightarrow> jsnum \<Rightarrow> bool" where
  "js_seq NaN _ = False"
| "js_seq _ NaN = False"
| "js_seq PInf b = (b = PInf)"
| "js_seq a PInf = False"
| "js_seq NInf b = (b = NInf)"
| "js_seq a NInf = False"
| "js_seq a b = (js_val a = js_val b)"

text \<open>Truthiness of a number: \<open>!x\<close> holds for the zeros and NaN.\<close>

fun js_falsy :: "jsnum \<Rightarrow> bool" where
  "js_falsy (Num r) = (r = 0)"
| "js_falsy NegZero = True"
| "js_falsy NaN = True"
| "js_falsy _ = False"

section \<open>Rounding to doubles\<close>

text \<open>
  The nearest integer, ties to the even one; the exponent of a real in the double format
  (that of the subnormal numbers at the bottom); the distance of the doubles around it; the
  nearest double.
\<close>

definition round_even :: "real \<Rightarrow> int" where
  "round_even q =
     (let f = \<lfloor>q\<rfloor>; d = q - of_int f
      in if d < 1/2 then f else if 1/2 < d then f + 1 else if even f then f else f + 1)"

definition expo :: "real \<Rightarrow> int" where
  "expo r = max \<lfloor>log 2 \<bar>r\<bar>\<rfloor> (- 1022)"

definition ulp :: "real \<Rightarrow> real" where
  "ulp r = 2 powr of_int (expo r - 52)"

definition binary64 :: "real \<Rightarrow> real" where
  "binary64 r = of_int (round_even (r / ulp r)) * ulp r"

text \<open>
  The result of a finite operation with exact value \<open>r\<close>, rounded: an infinity from the
  overflow threshold on, a zero with the sign of \<open>r\<close> when \<open>r\<close> rounds to zero, the nearest
  double otherwise. \<open>s\<close> is the sign of the zero when \<open>r\<close> is zero.
\<close>

definition fl_round :: "bool \<Rightarrow> real \<Rightarrow> jsnum" where
  "fl_round s r =
     (if OVF \<le> r then PInf
      else if r \<le> - OVF then NInf
      else if r = 0 then js_zero s
      else if binary64 r = 0 then js_zero (r < 0)
      else Num (binary64 r))"

fun fl_add :: "jsnum \<Rightarrow> jsnum \<Rightarrow> jsnum" where
  "fl_add NaN _ = NaN"
| "fl_add _ NaN = NaN"
| "fl_add PInf NInf = NaN"
| "fl_add NInf PInf = NaN"
| "fl_add PInf _ = PInf"
| "fl_add _ PInf = PInf"
| "fl_add NInf _ = NInf"
| "fl_add _ NInf = NInf"
| "fl_add NegZero NegZero = NegZero"
| "fl_add a b = fl_round False (js_val a + js_val b)"

definition fl_sub :: "jsnum \<Rightarrow> jsnum \<Rightarrow> jsnum" where
  "fl_sub a b = fl_add a (js_neg b)"

definition fl_mul :: "jsnum \<Rightarrow> jsnum \<Rightarrow> jsnum" where
  "fl_mul a b =
     (let s = (js_sign a \<noteq> js_sign b) in
      if a = NaN \<or> b = NaN then NaN
      else if js_isFinite a \<and> js_isFinite b then fl_round s (js_val a * js_val b)
      else if js_isFinite a \<and> js_val a = 0 then NaN
      else if js_isFinite b \<and> js_val b = 0 then NaN
      else js_inf s)"

definition fl_div :: "jsnum \<Rightarrow> jsnum \<Rightarrow> jsnum" where
  "fl_div a b =
     (let s = (js_sign a \<noteq> js_sign b) in
      if a = NaN \<or> b = NaN then NaN
      else if js_isFinite a \<and> js_isFinite b then
        (if js_val b = 0 then (if js_val a = 0 then NaN else js_inf s)
         else fl_round s (js_val a / js_val b))
      else if js_isFinite a then js_zero s
      else if js_isFinite b then js_inf s
      else NaN)"

text \<open>A decimal literal of the source: the double nearest to it.\<close>

definition fl_lit :: "real \<Rightarrow> jsnum" where
  "fl_lit r = Num (binary64 r)"

text \<open>
  \<open>Math.log10\<close>. The language leaves its value on a positive number to the implementation;
  the model takes it as the parameter \<open>lg\<close>.
\<close>

type_synonym log10 = "real \<Rightarrow> real"

fun fl_log10 :: "log10 \<Rightarrow> jsnum \<Rightarrow> jsnum" where
  "fl_log10 lg (Num r) = (if r < 0 then NaN else if r = 0 then NInf else Num (lg r))"
| "fl_log10 lg NegZero = NInf"
| "fl_log10 lg PInf = PInf"
| "fl_log10 lg NInf = NaN"
| "fl_log10 lg NaN = NaN"

section \<open>Summary statistics\<close>

record summary =
  mean :: jsnum
  median :: jsnum
  std_dev :: jsnum
  min_stat :: jsnum
  max_stat :: jsnum
  p25 :: jsnum
  p75 :: jsnum
  count :: nat
  variance :: jsnum

datatype error = Error string

text \<open>
  \<open>[...data].sort((a, b) => a - b)\<close>: a stable sort by the comparator \<open>a - b\<close>, written as
  insertion from the right. An element goes behind the ones it compares greater than.
  (With NaN among the data the comparator is inconsistent and the language leaves the
  order open; the summary is still returned.)
\<close>

fun js_insert :: "jsnum \<Rightarrow> jsnum list \<Rightarrow> jsnum list" where
  "js_insert x [] = [x]"
| "js_insert x (y # ys) =
     (if js_gt (js_sub x y) (Num 0) then y # js_insert x ys else x # y # ys)"

definition js_sort :: "jsnum list \<Rightarrow> jsnum list" where
  "js_sort xs = foldr js_insert xs []"

definition calculateStats :: "jsnum list \<Rightarrow> error + summary" where
  "calculateStats data =
     (if length data = 0 then Inl (Error ''Cannot calculate statistics on empty data'')
      else
        let sorted_data = js_sort data;
            n = length data;
            mean = js_div (foldl (\<lambda>sum val. js_add sum val) (Num 0) data) (Num (real n));
            median = (if n mod 2 = 0
                      then js_div (js_add (sorted_data ! (n div 2 - 1)) (sorted_data ! (n div 2))) (Num 2)
                      else sorted_data ! nat \<lfloor>real n / 2\<rfloor>);
            variance = js_div (foldl (\<lambda>sum val. js_add sum (js_pow2 (js_sub val mean))) (Num 0) data)
                              (Num (real n));
            stdDev = js_sqrt variance;
            min = sorted_data ! 0;
            max = sorted_data ! (n - 1);
            p25 = sorted_data ! nat \<lfloor>real n * 0.25\<rfloor>;
            p75 = sorted_data ! nat \<lfloor>real n * 0.75\<rfloor>
        in Inr \<lparr>mean = mean, median = median, std_dev = stdDev, min_stat = min, max_stat = max,
                p25 = p25, p75 = p75, count = n, variance = variance\<rparr>)"

section \<open>The detector\<close>

text \<open>
  An entry of \<open>conversionHeuristics\<close>; a field the entry does not have is \<open>None\<close>
  (\<open>undefined\<close>). The table is the same for every instance. A lookup by a name that every
  object inherits (\<open>toString\<close>, \<open>constructor\<close>, ...) finds that inherited member: an object
  with none of the four fields.
\<close>

record heuristic =
  ratio :: "jsnum option"
  offset :: "jsnum option"
  tolerance :: "jsnum option"
  description :: "string option"

definition inherited_keys :: "string list" where
  "inherited_keys =
     [''constructor'', ''__proto__'', ''hasOwnProperty'', ''isPrototypeOf'',
      ''propertyIsEnumerable'', ''toLocaleString'', ''toString'', ''valueOf'',
      ''__defineGetter__'', ''__defineSetter__'', ''__lookupGetter__'', ''__lookupSetter__'']"

definition conversionHeuristics :: "string \<Rightarrow> heuristic option" where
  "conversionHeuristics key =
     (if key = ''currency_usd_to_inr'' then
        Some \<lparr>ratio = Some (fl_lit 83.0), offset = None, tolerance = Some (fl_lit 0.15),
              description = Some ''USD to INR conversion''\<rparr>
      else if key = ''currency_usd_to_jpy'' then
        Some \<lparr>ratio = Some (fl_lit 150.0), offset = None, tolerance = Some (fl_lit 0.15),
              description = Some ''USD to JPY conversion''\<rparr>
      else if key = ''temperature_c_to_f'' then
        Some \<lparr>ratio = Some (fl_lit 1.8), offset = Some (fl_lit 32), tolerance = Some (fl_lit 0.1),
              description = Some ''Celsius to Fahrenheit''\<rparr>
      else if key = ''length_m_to_ft'' then
        Some \<lparr>ratio = Some (fl_lit 3.28084), offset = None, tolerance = Some (fl_lit 0.05),
              description = Some ''Meters to Feet''\<rparr>
      else if key = ''custom_numeric_distribution'' then
        Some \<lparr>ratio = None, offset = None, tolerance = Some (fl_lit 0.2),
              description = Some ''Generic numeric distribution''\<rparr>
      else if key \<in> set inherited_keys then
        Some \<lparr>ratio = None, offset = None, tolerance = None, description = None\<rparr>
      else None)"

text \<open>A possibly undefined field read as a number, and printed in a template.\<close>

fun js_number :: "jsnum option \<Rightarrow> jsnum" where
  "js_number None = NaN"
| "js_number (Some x) = x"

fun js_string :: "string option \<Rightarrow> string" where
  "js_string None = ''undefined''"
| "js_string (Some s) = s"

text \<open>
  The instance: its comparison type, the anomaly list and the confidence. The methods
  take the instance and return it updated. \<open>Number.prototype.toFixed\<close> is a built-in of the
  language; the methods take it as the parameter \<open>fx\<close> (number, then digits), and
  \<open>Math.log10\<close> as the parameter \<open>lg\<close>.
\<close>

record detector =
  comparisonType :: string
  anomalies :: "string list"
  confidence :: nat

type_synonym toFixed = "jsnum \<Rightarrow> nat \<Rightarrow> string"

definition new_detector :: "string \<Rightarrow> detector" where
  "new_detector ct = \<lparr>comparisonType = ct, anomalies = [], confidence = 0\<rparr>"

text \<open>What a sub-detector returns: \<open>{ detected, confidence }\<close>.\<close>

record signal =
  sig_detected :: bool
  sig_confidence :: nat

definition no_signal :: signal where
  "no_signal = \<lparr>sig_detected = False, sig_confidence = 0\<rparr>"

definition fired :: "nat \<Rightarrow> signal" where
  "fired c = \<lparr>sig_detected = True, sig_confidence = c\<rparr>"

definition push :: "detector \<Rightarrow> string \<Rightarrow> detector" where
  "push this s = this\<lparr>anomalies := anomalies this @ [s]\<rparr>"

definition detectMagnitudeShift ::
  "toFixed \<Rightarrow> log10 \<Rightarrow> detector \<Rightarrow> summary \<Rightarrow> summary \<Rightarrow> detector \<times> signal" where
  "detectMagnitudeShift fx lg this baseline current =
     (let baselineMean = mean baseline;
          currentMean = mean current
      in if js_seq baselineMean (Num 0) then (this, no_signal)
         else
           let ratio = fl_div currentMean baselineMean;
               logRatio = fl_log10 lg (js_abs ratio)
           in if js_gt (js_abs logRatio) (fl_lit 0.5) then
                let percentChange =
                      fx (fl_mul (fl_div (fl_sub currentMean baselineMean) baselineMean) (fl_lit 100)) 2
                in if js_lt ratio (fl_lit 0.1) then
                     (push this (''Severe magnitude drop: '' @ percentChange
                                  @ ''% decrease (ratio: '' @ fx ratio 4 @ '')''), fired 95)
                   else if js_gt ratio (fl_lit 10) then
                     (push this (''Severe magnitude increase: '' @ percentChange
                                  @ ''% increase (ratio: '' @ fx ratio 4 @ '')''), fired 95)
                   else if js_lt ratio (fl_lit 0.5) \<or> js_gt ratio (fl_lit 2.0) then
                     (push this (''Significant magnitude shift: '' @ percentChange @ ''% change''),
                      fired 70)
                   else (this, no_signal)
              else (this, no_signal))"

definition detectUnitConversion ::
  "toFixed \<Rightarrow> detector \<Rightarrow> summary \<Rightarrow> summary \<Rightarrow> detector \<times> signal" where
  "detectUnitConversion fx this baseline current =
     (case conversionHeuristics (comparisonType this) of
        None \<Rightarrow> (this, no_signal)
      | Some heuristic \<Rightarrow>
          if ratio heuristic = None \<or> js_falsy (js_number (ratio heuristic)) then (this, no_signal)
          else
            let baselineMean = mean baseline;
                currentMean = mean current
            in if js_seq baselineMean (Num 0) then (this, no_signal)
               else
                 let ratio = fl_div currentMean baselineMean;
                     expectedRatio = js_number (heuristic.ratio heuristic);
                     tolerance = js_number (heuristic.tolerance heuristic);
                     ratioError = fl_div (js_abs (fl_sub ratio expectedRatio)) expectedRatio
                 in if js_lt ratioError tolerance then
                      (push this (''Possible '' @ js_string (description heuristic) @ '': ratio ''
                                   @ fx ratio 2 @ '' matches expected '' @ fx expectedRatio 2),
                       fired 90)
                    else
                      let inverseRatio = fl_div (fl_lit 1) ratio;
                          inverseError =
                            fl_div (js_abs (fl_sub inverseRatio expectedRatio)) expectedRatio
                      in if js_lt inverseError tolerance then
                           (push this (''Possible inverse '' @ js_string (description heuristic)
                                        @ '': ratio '' @ fx inverseRatio 2 @ '' matches expected ''
                                        @ fx expectedRatio 2),
                            fired 90)
                         else (this, no_signal))"

definition detectDistributionShift ::
  "toFixed \<Rightarrow> detector \<Rightarrow> summary \<Rightarrow> summary \<Rightarrow> detector \<times> signal" where
  "detectDistributionShift fx this baseline current =
     (let baselineCV = fl_div (std_dev baseline) (mean baseline);
          currentCV = fl_div (std_dev current) (mean current)
      in if \<not> js_isFinite baselineCV \<or> \<not> js_isFinite currentCV then (this, no_signal)
         else
           let cvRatio = fl_div currentCV baselineCV
           in if js_gt cvRatio (fl_lit 2.0) \<or> js_lt cvRatio (fl_lit 0.5) then
                let change = (if js_gt cvRatio (fl_lit 1) then ''increase'' else ''decrease'')
                in (push this (''Distribution variability '' @ change
                                @ '': coefficient of variation changed by ''
                                @ fx (fl_mul (js_abs (fl_sub cvRatio (fl_lit 1))) (fl_lit 100)) 1 @ ''%''),
                    fired 60)
              else
                let baselineMedianMeanRatio = fl_div (median baseline) (mean baseline);
                    currentMedianMeanRatio = fl_div (median current) (mean current);
                    medianMeanShift =
                      js_abs (fl_sub currentMedianMeanRatio baselineMedianMeanRatio)
                in if js_gt medianMeanShift (fl_lit 0.2) then
                     (push this (''Distribution skew changed: median/mean ratio shifted by ''
                                  @ fx (fl_mul medianMeanShift (fl_lit 100)) 1 @ ''%''),
                      fired 55)
                   else (this, no_signal))"

definition detectRangeAnomaly ::
  "toFixed \<Rightarrow> detector \<Rightarrow> summary \<Rightarrow> summary \<Rightarrow> detector \<times> signal" where
  "detectRangeAnomaly fx this baseline current =
     (let baselineRange = fl_sub (max_stat baseline) (min_stat baseline);
          currentRange = fl_sub (max_stat current) (min_stat current)
      in if js_seq baselineRange (Num 0) then (this, no_signal)
         else
           let rangeRatio = fl_div currentRange baselineRange
           in if js_gt rangeRatio (fl_lit 5.0) then
                (push this (''Data range expanded significantly: '' @ fx rangeRatio 1
                             @ ''x larger than baseline''),
                 fired 65)
              else if js_lt rangeRatio (fl_lit 0.2) then
                (push this (''Data range contracted significantly: ''
                             @ fx (fl_mul rangeRatio (fl_lit 100)) 0 @ ''% of baseline range''),
                 fired 65)
              else (this, no_signal))"

text \<open>The result of \<open>analyze\<close>: \<open>{ confidence, anomalies, detected }\<close>.\<close>

record detection_result =
  res_confidence :: nat
  res_anomalies :: "string list"
  res_detected :: bool

text \<open>\<open>if (r.detected) confidenceScores.push(r.confidence)\<close>\<close>

definition collect :: "nat list \<Rightarrow> signal \<Rightarrow> nat list" where
  "collect confidenceScores r =
     (if sig_detected r then confidenceScores @ [sig_confidence r] else confidenceScores)"

text \<open>\<open>Math.max(...xs)\<close> on a list of confidences that is not empty.\<close>

definition math_max :: "nat list \<Rightarrow> nat" where
  "math_max xs = foldl max (hd xs) (tl xs)"

text \<open>The aggregation at the end of \<open>analyze\<close>: the value assigned to \<open>this.confidence\<close>.\<close>

definition aggregate :: "nat list \<Rightarrow> nat" where
  "aggregate confidenceScores =
     (if length confidenceScores = 0 then 0
      else if length confidenceScores = 1 then confidenceScores ! 0
      else
        let maxConfidence = math_max confidenceScores;
            boost = min ((length confidenceScores - 1) * 5) 15
        in min (maxConfidence + boost) 100)"

text \<open>The first statement of \<open>analyze\<close>: \<open>this.anomalies = []\<close>.\<close>

definition analyze_reset :: "detector \<Rightarrow> detector" where
  "analyze_reset this = this\<lparr>anomalies := []\<rparr>"

text \<open>The four sub-detectors in their order, with the confidences collected.\<close>

definition run_detectors ::
  "toFixed \<Rightarrow> log10 \<Rightarrow> detector \<Rightarrow> summary \<Rightarrow> summary \<Rightarrow> detector \<times> nat list" where
  "run_detectors fx lg this baselineStats currentStats =
     (let confidenceScores = [];
          (this, magnitudeResult) = detectMagnitudeShift fx lg this baselineStats currentStats;
          confidenceScores = collect confidenceScores magnitudeResult;
          (this, conversionResult) = detectUnitConversion fx this baselineStats currentStats;
          confidenceScores = collect confidenceScores conversionResult;
          (this, distributionResult) = detectDistributionShift fx this baselineStats currentStats;
          confidenceScores = collect confidenceScores distributionResult;
          (this, rangeResult) = detectRangeAnomaly fx this baselineStats currentStats;
          confidenceScores = collect confidenceScores rangeResult
      in (this, confidenceScores))"

definition analyze ::
  "toFixed \<Rightarrow> log10 \<Rightarrow> detector \<Rightarrow> summary \<Rightarrow> summary \<Rightarrow> detector \<times> detection_result" where
  "analyze fx lg this baselineStats currentStats =
     (let this = analyze_reset this;
          (this, confidenceScores) = run_detectors fx lg this baselineStats currentStats;
          this = this\<lparr>confidence := aggregate confidenceScores\<rparr>
      in (this, \<lparr>res_confidence = confidence this, res_anomalies = anomalies this,
                  res_detected = (length (anomalies this) > 0)\<rparr>))"

subsection \<open>The diagnostic report\<close>

text \<open>A natural number in decimal, as a template prints \<open>idx + 1\<close>; \<open>Array.prototype.join\<close>.\<close>

fun string_of_nat :: "nat \<Rightarrow> string" where
  "string_of_nat n =
     (if n < 10 then [char_of (48 + n)]
      else string_of_nat (n div 10) @ [char_of (48 + n mod 10)])"

fun join :: "string \<Rightarrow> string list \<Rightarrow> string" where
  "join sep [] = []"
| "join sep [x] = x"
| "join sep (x # y # ys) = x @ sep @ join sep (y # ys)"

text \<open>The four banners start with the bytes that the source file has before the words.\<close>

definition banner_high :: string where
  "banner_high =
     [CHR 0xC3, CHR 0xB0, CHR 0xC5, CHR 0xB8, CHR 0xC5, CHR 0xA1, CHR 0xC2, CHR 0xA8]
     @ '' HIGH CONFIDENCE: Silent data corruption detected''"

definition banner_medium :: string where
  "banner_medium =
     [CHR 0xC3, CHR 0xA2, CHR 0xC5, CHR 0xA1, CHR 0xC2, CHR 0xA0, CHR 0xC3, CHR 0xAF,
      CHR 0xC2, CHR 0xB8]
     @ ''  MEDIUM CONFIDENCE: Suspicious data patterns detected''"

definition banner_low :: string where
  "banner_low =
     [CHR 0xC3, CHR 0xA2, CHR 0xE2, CHR 0x80, CHR 0x9E, CHR 0xC2, CHR 0xB9, CHR 0xC3,
      CHR 0xAF, CHR 0xC2, CHR 0xB8]
     @ ''  LOW CONFIDENCE: Minor anomalies detected''"

definition banner_none :: string where
  "banner_none =
     [CHR 0xC3, CHR 0xA2, CHR 0xC5, CHR 0x93, CHR 0xE2, CHR 0x80, CHR 0xA6]
     @ '' No significant semantic drift detected''"

definition newline :: string where
  "newline = [CHR 0x0A]"

definition common_causes :: "string list" where
  "common_causes =
     [newline @ ''Common causes:'',
      ''  - Unit conversion (currency, temperature, length)'',
      ''  - Locale/region change in data source'',
      ''  - Schema migration without data transformation'',
      ''  - Upstream API changes'',
      ''  - Data aggregation level changes'']"

text \<open>\<open>this.anomalies.forEach((anomaly, idx) => ...)\<close>, from index \<open>idx\<close> on.\<close>

fun numbered :: "nat \<Rightarrow> string list \<Rightarrow> string list" where
  "numbered idx [] = []"
| "numbered idx (anomaly # rest) =
     (''  '' @ string_of_nat (idx + 1) @ ''. '' @ anomaly) # numbered (idx + 1) rest"

definition generateDiagnostics :: "detector \<Rightarrow> string" where
  "generateDiagnostics this =
     (let heuristic = conversionHeuristics (comparisonType this);
          diagnostics = [];
          diagnostics =
            (if confidence this \<ge> 90 then diagnostics @ [banner_high]
             else if confidence this \<ge> 70 then diagnostics @ [banner_medium]
             else if confidence this \<ge> 50 then diagnostics @ [banner_low]
             else diagnostics @ [banner_none]);
          diagnostics =
            (case heuristic of
               Some h \<Rightarrow> diagnostics @ [newline @ ''Analysis type: '' @ js_string (description h)]
             | None \<Rightarrow> diagnostics);
          diagnostics =
            (if length (anomalies this) > 0
             then diagnostics @ [newline @ ''Detected anomalies:'']
                    @ numbered 0 (anomalies this) @ common_causes
             else diagnostics)
      in join newline diagnostics)"

section \<open>The specification's words\<close>

text \<open>
  What one sub-detector call does to a fresh instance: nothing, or one anomaly and a
  confidence from the set \<open>K\<close>.
\<close>

definition outcome :: "detector \<times> signal \<Rightarrow> nat set \<Rightarrow> bool" where
  "outcome p K =
     ((anomalies (fst p) = [] \<and> snd p = no_signal)
      \<or> (length (anomalies (fst p)) = 1 \<and> (\<exists>k\<in>K. snd p = fired k)))"

definition fixed_scores :: "nat set" where
  "fixed_scores = {55, 60, 65, 70, 90, 95}"

text \<open>
  The list \<open>S\<close> of the aggregation rule: the confidences of the sub-detectors that fired,
  run in the order magnitude, unit conversion, distribution, range. The rule itself.
\<close>

definition spec_fired :: "toFixed \<Rightarrow> log10 \<Rightarrow> detector \<Rightarrow> summary \<Rightarrow> summary \<Rightarrow> nat list" where
  "spec_fired fx lg this b c =
     (let (t1, r1) = detectMagnitudeShift fx lg (analyze_reset this) b c;
          (t2, r2) = detectUnitConversion fx t1 b c;
          (t3, r3) = detectDistributionShift fx t2 b c;
          (t4, r4) = detectRangeAnomaly fx t3 b c
      in map sig_confidence (filter sig_detected [r1, r2, r3, r4]))"

definition spec_confidence :: "nat list \<Rightarrow> nat" where
  "spec_confidence S =
     (if S = [] then 0
      else if length S = 1 then hd S
      else min (Max (set S) + min ((length S - 1) * 5) 15) 100)"

text \<open>
  The magnitude detector in the specification's words: nothing when the baseline mean is
  zero or the logarithm stays within 0.5; else the tier, as the confidence and the words
  that the anomaly starts with.
\<close>

definition spec_magnitude :: "log10 \<Rightarrow> summary \<Rightarrow> summary \<Rightarrow> (nat \<times> string) option" where
  "spec_magnitude lg b c =
     (if js_seq (mean b) (Num 0) then None
      else
        let ratio = fl_div (mean c) (mean b)
        in if \<not> js_gt (js_abs (fl_log10 lg (js_abs ratio))) (fl_lit 0.5) then None
           else if js_lt ratio (fl_lit 0.1) then Some (95, ''Severe magnitude drop'')
           else if js_gt ratio (fl_lit 10) then Some (95, ''Severe magnitude increase'')
           else if js_lt ratio (fl_lit 0.5) \<or> js_gt ratio (fl_lit 2.0)
             then Some (70, ''Significant magnitude shift'')
           else None)"

text \<open>
  The unit-conversion detector in the specification's words. The table has the expected
  ratio and the tolerance of the four comparison types that have a ratio.
\<close>

datatype match = Forward | Inverse

definition spec_table :: "string \<Rightarrow> (real \<times> real) option" where
  "spec_table key =
     (if key = ''currency_usd_to_inr'' then Some (83.0, 0.15)
      else if key = ''currency_usd_to_jpy'' then Some (150.0, 0.15)
      else if key = ''temperature_c_to_f'' then Some (1.8, 0.1)
      else if key = ''length_m_to_ft'' then Some (3.28084, 0.05)
      else None)"

definition spec_unit :: "string \<Rightarrow> summary \<Rightarrow> summary \<Rightarrow> match option" where
  "spec_unit ct b c =
     (case spec_table ct of
        None \<Rightarrow> None
      | Some (expected, tol) \<Rightarrow>
          if js_seq (mean b) (Num 0) then None
          else
            let ratio = fl_div (mean c) (mean b)
            in if js_lt (fl_div (js_abs (fl_sub ratio (fl_lit expected))) (fl_lit expected))
                        (fl_lit tol)
                 then Some Forward
               else if js_lt (fl_div (js_abs (fl_sub (fl_div (fl_lit 1) ratio) (fl_lit expected)))
                                     (fl_lit expected))
                             (fl_lit tol)
                 then Some Inverse
               else None)"

text \<open>
  The conditions of the distribution detector: both coefficients of variation are finite;
  their ratio is outside 0.5 to 2.0; the median-to-mean ratio moved by more than 0.2.
\<close>

definition cv_finite :: "summary \<Rightarrow> summary \<Rightarrow> bool" where
  "cv_finite b c =
     (js_isFinite (fl_div (std_dev b) (mean b)) \<and> js_isFinite (fl_div (std_dev c) (mean c)))"

definition cv_outside :: "summary \<Rightarrow> summary \<Rightarrow> bool" where
  "cv_outside b c =
     (let cvRatio = fl_div (fl_div (std_dev c) (mean c)) (fl_div (std_dev b) (mean b))
      in js_gt cvRatio (fl_lit 2.0) \<or> js_lt cvRatio (fl_lit 0.5))"

definition skew_shift :: "summary \<Rightarrow> summary \<Rightarrow> bool" where
  "skew_shift b c =
     js_gt (js_abs (fl_sub (fl_div (median c) (mean c)) (fl_div (median b) (mean b)))) (fl_lit 0.2)"

text \<open>
  What is assumed of \<open>Math.log10\<close> where a value of it is needed: it is within a hundredth
  of the logarithm.
\<close>

definition log10_accurate :: "log10 \<Rightarrow> bool" where
  "log10_accurate lg = (\<forall>x. 0 < x \<longrightarrow> \<bar>lg x - log 10 x\<bar> \<le> 1/100)"

section \<open>Example inputs\<close>

text \<open>
  A stand-in for \<open>toFixed\<close> that prints every number as \<open>#\<close>, and the logarithm itself
  for \<open>Math.log10\<close>.
\<close>

definition ex_fx :: toFixed where
  "ex_fx x d = ''#''"

definition ex_lg :: log10 where
  "ex_lg x = log 10 x"

text \<open>Three prices of one dollar, and the same in rupees.\<close>

definition ex_one :: summary where
  "ex_one =
     \<lparr>mean = Num 1, median = Num 1, std_dev = Num 0, min_stat = Num 1, max_stat = Num 1,
      p25 = Num 1, p75 = Num 1, count = 3, variance = Num 0\<rparr>"

definition ex_inr :: summary where
  "ex_inr =
     \<lparr>mean = Num 83, median = Num 83, std_dev = Num 0, min_stat = Num 83, max_stat = Num 83,
      p25 = Num 83, p75 = Num 83, count = 3, variance = Num 0\<rparr>"

text \<open>A price and its drop by a factor of twenty.\<close>

definition ex_usd :: summary where
  "ex_usd =
     \<lparr>mean = Num 100, median = Num 100, std_dev = Num 10, min_stat = Num 80, max_stat = Num 120,
      p25 = Num 90, p75 = Num 110, count = 10, variance = Num 100\<rparr>"

definition ex_drop :: summary where
  "ex_drop =
     \<lparr>mean = Num 5, median = Num 5, std_dev = Num 0.5, min_stat = Num 4, max_stat = Num 6,
      p25 = Num 4.5, p75 = Num 5.5, count = 10, variance = Num 0.25\<rparr>"

text \<open>
  A summary; the same with a spread four times as wide and the median halved; the same
  with the median halved only; an all-zero summary.
\<close>

definition ex_base :: summary where
  "ex_base =
     \<lparr>mean = Num 4, median = Num 4, std_dev = Num 1, min_stat = Num 2, max_stat = Num 6,
      p25 = Num 3, p75 = Num 5, count = 8, variance = Num 1\<rparr>"

definition ex_spread :: summary where
  "ex_spread =
     \<lparr>mean = Num 4, median = Num 2, std_dev = Num 4, min_stat = Num 2, max_stat = Num 6,
      p25 = Num 3, p75 = Num 5, count = 8, variance = Num 16\<rparr>"

definition ex_skew :: summary where
  "ex_skew =
     \<lparr>mean = Num 4, median = Num 2, std_dev = Num 1, min_stat = Num 2, max_stat = Num 6,
      p25 = Num 3, p75 = Num 5, count = 8, variance = Num 1\<rparr>"

definition ex_zero :: summary where
  "ex_zero =
     \<lparr>mean = Num 0, median = Num 0, std_dev = Num 0, min_stat = Num 0, max_stat = Num 0,
      p25 = Num 0, p75 = Num 0, count = 2, variance = Num 0\<rparr>"

text \<open>
  The sequence 1, 2, 3, 4 and its summary; four times \<open>10^308\<close>, a finite double, and the
  summary of that.
\<close>

definition ex_1234_stats :: summary where
  "ex_1234_stats =
     \<lparr>mean = Num 2.5, median = Num 2.5, std_dev = Num (sqrt 1.25), min_stat = Num 1,
      max_stat = Num 4, p25 = Num 2, p75 = Num 4, count = 4, variance = Num 1.25\<rparr>"

definition huge :: real where
  "huge = 10 ^ 308"

definition ex_huge :: "jsnum list" where
  "ex_huge = [Num huge, Num huge, Num huge, Num huge]"

definition ex_huge_stats :: summary where
  "ex_huge_stats =
     \<lparr>mean = PInf, median = PInf, std_dev = PInf, min_stat = Num huge, max_stat = Num huge,
      p25 = Num huge, p75 = Num huge, count = 4, variance = PInf\<rparr>"

section \<open>Basic facts\<close>

declare string_of_nat.simps [simp del]

subsection \<open>Numbers\<close>

lemma OVF_big: "10 ^ 300 < OVF"
  unfolding OVF_def by simp

lemma OVF_pos: "0 < OVF"
  using OVF_big by (simp add: order.strict_trans2 [of 0 "10 ^ 300"])

lemma js_round_small:
  "\<bar>r\<bar> < 10 ^ 300 \<Longrightarrow> js_round s r = (if r = 0 then js_zero s else Num r)"
  using OVF_big unfolding js_round_def by auto

text \<open>The logarithm beyond a half, without the logarithm.\<close>

lemma sqrt10_less_iff: "0 < x \<Longrightarrow> (sqrt 10 < x) = (10 < x\<^sup>2)"
  by (metis less_eq_real_def real_sqrt_less_iff real_sqrt_abs abs_of_nonneg)

lemma log10_gt_half: "0 < x \<Longrightarrow> (1/2 < log 10 x) = (10 < x\<^sup>2)"
proof -
  assume x: "0 < x"
  have "(1/2 < log 10 x) = (10 powr (1/2) < x)"
    using x less_log_iff [of 10 x "1/2"] by simp
  also have "\<dots> = (sqrt 10 < x)" by (simp add: powr_half_sqrt)
  also have "\<dots> = (10 < x\<^sup>2)"
    using x by (rule sqrt10_less_iff)
  finally show ?thesis .
qed

lemma log10_lt_neg_half: "0 < x \<Longrightarrow> (log 10 x < - (1/2)) = (10 * x\<^sup>2 < 1)"
proof -
  assume x: "0 < x"
  have "log 10 (1 / x) = - log 10 x"
    using x by (simp add: log_divide)
  then have "(log 10 x < - (1/2)) = (1/2 < log 10 (1 / x))"
    by linarith
  also have "\<dots> = (10 < (1 / x)\<^sup>2)"
    using x log10_gt_half [of "1 / x"] by simp
  also have "\<dots> = (10 * x\<^sup>2 < 1)"
    using x by (simp add: power_divide field_simps)
  finally show ?thesis .
qed

lemma abs_log10_gt_half:
  "0 < x \<Longrightarrow> (1/2 < \<bar>log 10 x\<bar>) = (10 < x\<^sup>2 \<or> 10 * x\<^sup>2 < 1)"
proof -
  assume x: "0 < x"
  have a: "(1/2 < \<bar>log 10 x\<bar>) = (1/2 < log 10 x \<or> log 10 x < - (1/2))"
    by linarith
  show ?thesis
    unfolding a using x log10_gt_half [of x] log10_lt_neg_half [of x] by blast
qed

subsection \<open>The aggregation\<close>

lemma foldl_max_Max: "foldl max (a::nat) xs = Max (insert a (set xs))"
proof (induction xs arbitrary: a)
  case Nil
  show ?case by simp
next
  case (Cons x xs)
  have "Max (insert a (insert x (set xs))) = max a (Max (insert x (set xs)))"
    by (rule Max_insert) simp_all
  also have "\<dots> = max a (if set xs = {} then x else max x (Max (set xs)))"
    by simp
  also have "\<dots> = Max (insert (max a x) (set xs))"
    by (cases "set xs = {}") (simp_all add: max.assoc)
  finally show ?case using Cons.IH [of "max a x"] by simp
qed

lemma math_max_Max: "xs \<noteq> [] \<Longrightarrow> math_max xs = Max (set xs)"
  unfolding math_max_def by (cases xs) (simp_all add: foldl_max_Max)

subsection \<open>Evaluating the exact operations on finite numbers\<close>

lemma js_div_Num:
  "js_div (Num x) (Num y) =
     (if y = 0 then (if x = 0 then NaN else js_inf ((x < 0) \<noteq> (y < 0)))
      else js_round ((x < 0) \<noteq> (y < 0)) (x / y))"
  by (simp add: js_div_def)

lemma js_mul_Num: "js_mul (Num x) (Num y) = js_round ((x < 0) \<noteq> (y < 0)) (x * y)"
  by (simp add: js_mul_def)

lemma js_sub_Num: "js_sub (Num x) (Num y) = js_round False (x - y)"
  by (simp add: js_sub_def)

lemma js_round_million:
  "\<bar>r\<bar> < 1000000 \<Longrightarrow> js_round s r = (if r = 0 then js_zero s else Num r)"
  by (rule js_round_small) (simp add: order.strict_trans [of _ 1000000])

lemmas js_eval = js_div_Num js_mul_Num js_sub_Num js_round_million js_zero_def
  js_inf_def js_gt_def

subsection \<open>The nearest double\<close>

lemma round_even_near: "\<bar>of_int (round_even q) - q\<bar> \<le> 1/2"
  unfolding round_even_def Let_def by (auto simp: abs_if) linarith+

lemma round_even_int: "round_even (of_int n) = n"
  by (simp add: round_even_def)

lemma ulp_pos: "0 < ulp r"
  by (simp add: ulp_def)

lemma binary64_near: "\<bar>binary64 r - r\<bar> \<le> ulp r / 2"
proof -
  have "binary64 r - r = (of_int (round_even (r / ulp r)) - r / ulp r) * ulp r"
    using ulp_pos [of r] by (simp add: binary64_def field_simps)
  then have "\<bar>binary64 r - r\<bar> = \<bar>of_int (round_even (r / ulp r)) - r / ulp r\<bar> * ulp r"
    using ulp_pos [of r] by (simp add: abs_mult)
  also have "\<dots> \<le> 1/2 * ulp r"
    using round_even_near [of "r / ulp r"] ulp_pos [of r] by (intro mult_right_mono) simp_all
  finally show ?thesis by simp
qed

lemma binary64_fixed:
  assumes "r / ulp r = of_int n"
  shows "binary64 r = r"
proof -
  have "binary64 r = of_int n * ulp r"
    unfolding binary64_def assms round_even_int ..
  also have "\<dots> = r / ulp r * ulp r" using assms by simp
  also have "\<dots> = r" using ulp_pos [of r] by simp
  finally show ?thesis .
qed

lemma expo_normal:
  assumes "2 powr of_int e \<le> \<bar>r\<bar>" "\<bar>r\<bar> < 2 powr of_int (e + 1)" "- 1022 \<le> e"
  shows "expo r = e"
proof -
  have r: "0 < \<bar>r\<bar>" using assms(1) by (smt (verit) powr_gt_zero)
  have "of_int e \<le> log 2 \<bar>r\<bar>" using assms(1) r by (simp add: le_log_iff)
  moreover have "log 2 \<bar>r\<bar> < of_int (e + 1)" using assms(2) r by (simp add: log_less_iff)
  ultimately have "\<lfloor>log 2 \<bar>r\<bar>\<rfloor> = e" by linarith
  then show ?thesis using assms(3) by (simp add: expo_def)
qed

lemma ulp_le:
  assumes "2 powr (- 1022) \<le> \<bar>r\<bar>"
  shows "ulp r \<le> \<bar>r\<bar> / 2 ^ 52"
proof -
  have r: "0 < \<bar>r\<bar>" using assms by (smt (verit) powr_gt_zero)
  have "- 1022 \<le> log 2 \<bar>r\<bar>" using assms r by (simp add: le_log_iff)
  then have e: "expo r = \<lfloor>log 2 \<bar>r\<bar>\<rfloor>" unfolding expo_def by linarith
  have "2 powr of_int (expo r) \<le> 2 powr log 2 \<bar>r\<bar>"
    unfolding e by (intro powr_mono) simp_all
  then have "2 powr of_int (expo r) \<le> \<bar>r\<bar>" using r by simp
  moreover have "ulp r = 2 powr of_int (expo r) / 2 ^ 52"
    by (simp add: ulp_def powr_diff powr_realpow [symmetric])
  ultimately show ?thesis by (simp add: divide_right_mono)
qed

text \<open>In the normal range the nearest double is within a relative \<open>2^-53\<close>.\<close>

lemma binary64_rel:
  assumes "2 powr (- 1022) \<le> \<bar>r\<bar>"
  shows "\<bar>binary64 r - r\<bar> \<le> \<bar>r\<bar> / 2 ^ 53"
proof -
  have "\<bar>binary64 r - r\<bar> \<le> ulp r / 2" by (rule binary64_near)
  also have "\<dots> \<le> (\<bar>r\<bar> / 2 ^ 52) / 2" using ulp_le [OF assms] by simp
  finally show ?thesis by simp
qed

text \<open>An integer below \<open>2^53\<close> over a power of two is a double.\<close>

lemma log2_pow_div: "log 2 (2 ^ n / 2 ^ k) = real n - real k"
  by (simp add: log_divide log_nat_power)

lemma binary64_dyadic:
  assumes m: "\<bar>m\<bar> < 2 ^ 53" and k: "k \<le> 1022"
  shows "binary64 (of_int m / 2 ^ k) = of_int m / 2 ^ k"
proof (cases "m = 0")
  case True
  then show ?thesis by (simp add: binary64_def round_even_def)
next
  case False
  define r :: real where "r = of_int m / 2 ^ k"
  have r: "0 < \<bar>r\<bar>" using False by (simp add: r_def)
  have "\<bar>r\<bar> < 2 ^ 53 / 2 ^ k"
  proof -
    have "\<bar>real_of_int m\<bar> < 2 ^ 53"
      using m by (metis of_int_abs of_int_less_numeral_power_cancel_iff)
    then show ?thesis by (simp add: r_def divide_strict_right_mono)
  qed
  then have "log 2 \<bar>r\<bar> < log 2 (2 ^ 53 / 2 ^ k)" using r by simp
  also have "\<dots> = 53 - real k" using log2_pow_div [of 53 k] by simp
  finally have up: "\<lfloor>log 2 \<bar>r\<bar>\<rfloor> \<le> 52 - int k" by linarith
  have "- 1022 \<le> 52 - int k" using k by simp
  with up have e: "expo r \<le> 52 - int k" by (simp add: expo_def)
  define j where "j = nat (52 - int k - expo r)"
  have j: "int j = 52 - int k - expo r" using e by (simp add: j_def)
  have u: "ulp r = 1 / (2 ^ k * 2 ^ j)"
  proof -
    have "real_of_int (expo r - 52) = - (real k + real j)"
      using j by linarith
    then have "ulp r = 2 powr (- (real k + real j))" by (simp add: ulp_def)
    also have "\<dots> = 1 / 2 powr (real k + real j)"
      by (rule powr_minus_divide)
    also have "2 powr (real k + real j) = (2::real) ^ k * 2 ^ j"
      by (simp add: powr_add powr_realpow)
    finally show ?thesis .
  qed
  have "r / ulp r = of_int (m * 2 ^ j)"
    unfolding u by (simp add: r_def)
  then have "binary64 r = r" by (rule binary64_fixed)
  then show ?thesis by (simp add: r_def)
qed

lemma binary64_int: "\<bar>m\<bar> < 2 ^ 53 \<Longrightarrow> binary64 (of_int m) = of_int m"
  using binary64_dyadic [of m 0] by simp

text \<open>The nearest double of a real between two neighbouring powers of two.\<close>

lemma binary64_down:
  assumes "1 \<le> \<bar>r\<bar> * 2 ^ k" "\<bar>r\<bar> * 2 ^ k < 2" "k \<le> 1022"
  shows "binary64 r = of_int (round_even (r * 2 ^ (52 + k))) / 2 ^ (52 + k)"
proof -
  have p: "2 powr of_int (- int k) = 1 / (2::real) ^ k"
    by (simp add: powr_minus_divide powr_realpow)
  have "2 powr of_int (- int k) \<le> \<bar>r\<bar>"
    unfolding p using assms(1) by (simp add: field_simps)
  moreover have "\<bar>r\<bar> < 2 powr of_int (- int k + 1)"
  proof -
    have "(2::real) powr (of_int (- int k) + 1) = 2 powr of_int (- int k) * 2 powr 1"
      by (rule powr_add)
    then have h: "(2::real) powr of_int (- int k + 1) = 2 powr of_int (- int k) * 2"
      by simp
    have "\<bar>r\<bar> < 2 / 2 ^ k" using assms(2) by (simp add: pos_less_divide_eq)
    also have "2 / (2::real) ^ k = 2 powr of_int (- int k) * 2" unfolding p by simp
    also have "\<dots> = 2 powr of_int (- int k + 1)" unfolding h ..
    finally show ?thesis .
  qed
  ultimately have e: "expo r = - int k" using assms(3) by (intro expo_normal) simp_all
  have "real_of_int (expo r - 52) = - real (52 + k)" unfolding e by simp
  then have "ulp r = 2 powr (- real (52 + k))" by (simp only: ulp_def)
  also have "\<dots> = 1 / 2 powr real (52 + k)" by (rule powr_minus_divide)
  also have "2 powr real (52 + k) = (2::real) ^ (52 + k)" by (rule powr_realpow) simp
  finally have u: "ulp r = 1 / 2 ^ (52 + k)" .
  show ?thesis unfolding binary64_def u by simp
qed

lemma binary64_up:
  assumes "2 ^ k \<le> \<bar>r\<bar>" "\<bar>r\<bar> < 2 * 2 ^ k" "k \<le> 52"
  shows "binary64 r = of_int (round_even (r * 2 ^ (52 - k))) / 2 ^ (52 - k)"
proof -
  have p: "2 powr of_int (int k) = (2::real) ^ k"
    by (simp add: powr_realpow)
  have "2 powr of_int (int k) \<le> \<bar>r\<bar>"
    unfolding p using assms(1) .
  moreover have "\<bar>r\<bar> < 2 powr of_int (int k + 1)"
  proof -
    have "(2::real) powr of_int (int k + 1) = 2 powr of_int (int k) * 2"
      by (simp add: powr_add)
    then show ?thesis unfolding p using assms(2) by (simp add: field_simps)
  qed
  ultimately have e: "expo r = int k" by (intro expo_normal) simp_all
  have "real_of_int (expo r - 52) = - real (52 - k)" unfolding e using assms(3) by simp
  then have "ulp r = 2 powr (- real (52 - k))" by (simp only: ulp_def)
  also have "\<dots> = 1 / 2 powr real (52 - k)" by (rule powr_minus_divide)
  also have "2 powr real (52 - k) = (2::real) ^ (52 - k)" by (rule powr_realpow) simp
  finally have u: "ulp r = 1 / 2 ^ (52 - k)" .
  show ?thesis unfolding binary64_def u by simp
qed

text \<open>The doubles of the literals of the source, and of other values of the examples.\<close>

lemma binary64_0: "binary64 0 = 0"
  by (simp add: binary64_def round_even_def)

lemma binary64_1: "binary64 1 = 1"
  using binary64_int [of 1] by simp

lemma binary64_numeral:
  "(numeral n :: int) < 9007199254740992 \<Longrightarrow> binary64 (numeral n) = numeral n"
  using binary64_int [of "numeral n"] by simp

lemma binary64_half: "binary64 (1/2) = 1/2"
  using binary64_dyadic [of 1 1] by simp

lemma binary64_quarter: "binary64 (1/4) = 1/4"
  using binary64_dyadic [of 1 2] by simp

lemma binary64_neg_half: "binary64 (- (1/2)) = - (1/2)"
  using binary64_dyadic [of "- 1" 1] by simp

lemma binary64_tenth: "binary64 (1/10) = 3602879701896397 / 36028797018963968"
  using binary64_down [of "1/10" 4] by (simp add: round_even_def)

lemma binary64_three_twentieths: "binary64 (3/20) = 5404319552844595 / 36028797018963968"
  using binary64_down [of "3/20" 3] by (simp add: round_even_def)

lemma binary64_fifth: "binary64 (1/5) = 3602879701896397 / 18014398509481984"
  using binary64_down [of "1/5" 3] by (simp add: round_even_def)

lemma binary64_twentieth: "binary64 (1/20) = 3602879701896397 / 72057594037927936"
  using binary64_down [of "1/20" 5] by (simp add: round_even_def)

lemma binary64_nine_fifths: "binary64 (9/5) = 8106479329266893 / 4503599627370496"
  using binary64_up [of 0 "9/5"] by (simp add: round_even_def)

lemma binary64_feet: "binary64 (82021/25000) = 7387794900731109 / 2251799813685248"
  using binary64_up [of 1 "82021/25000"] by (simp add: round_even_def)

lemmas binary64_values = binary64_0 binary64_1 binary64_numeral binary64_half binary64_quarter binary64_neg_half
  binary64_tenth binary64_three_twentieths binary64_fifth binary64_twentieth
  binary64_nine_fifths binary64_feet

subsection \<open>Evaluating the rounded operations on finite numbers\<close>

lemma fl_round_small:
  "\<bar>r\<bar> < 1000000 \<Longrightarrow>
     fl_round s r = (if r = 0 then js_zero s
                     else if binary64 r = 0 then js_zero (r < 0) else Num (binary64 r))"
  using OVF_big unfolding fl_round_def
  by (auto simp: order.strict_trans [of _ 1000000])

lemma fl_div_Num:
  "fl_div (Num x) (Num y) =
     (if y = 0 then (if x = 0 then NaN else js_inf ((x < 0) \<noteq> (y < 0)))
      else fl_round ((x < 0) \<noteq> (y < 0)) (x / y))"
  by (simp add: fl_div_def)

lemma fl_mul_Num: "fl_mul (Num x) (Num y) = fl_round ((x < 0) \<noteq> (y < 0)) (x * y)"
  by (simp add: fl_mul_def)

lemma fl_sub_Num: "fl_sub (Num x) (Num y) = fl_round False (x - y)"
  by (simp add: fl_sub_def)

lemmas fl_eval = fl_div_Num fl_mul_Num fl_sub_Num fl_round_small js_zero_def js_inf_def
  js_gt_def fl_lit_def binary64_values

subsection \<open>The sub-detectors only append to the anomaly list\<close>

text \<open>
  A sub-detector reads the comparison type only; run on any instance it does what it does
  on a fresh one, with the anomalies appended.
\<close>

lemma mag_frame:
  "detectMagnitudeShift fx lg this b c =
     (case detectMagnitudeShift fx lg (new_detector (comparisonType this)) b c of
        (t, r) \<Rightarrow> (this\<lparr>anomalies := anomalies this @ anomalies t\<rparr>, r))"
  by (simp add: detectMagnitudeShift_def Let_def push_def new_detector_def)

lemma unit_frame:
  "detectUnitConversion fx this b c =
     (case detectUnitConversion fx (new_detector (comparisonType this)) b c of
        (t, r) \<Rightarrow> (this\<lparr>anomalies := anomalies this @ anomalies t\<rparr>, r))"
proof (cases "conversionHeuristics (comparisonType this)")
  case None
  then show ?thesis by (simp add: detectUnitConversion_def new_detector_def)
next
  case (Some h)
  then show ?thesis
    by (simp add: detectUnitConversion_def Let_def push_def new_detector_def)
qed

lemma dist_frame:
  "detectDistributionShift fx this b c =
     (case detectDistributionShift fx (new_detector (comparisonType this)) b c of
        (t, r) \<Rightarrow> (this\<lparr>anomalies := anomalies this @ anomalies t\<rparr>, r))"
  by (simp add: detectDistributionShift_def Let_def push_def new_detector_def)

lemma range_frame:
  "detectRangeAnomaly fx this b c =
     (case detectRangeAnomaly fx (new_detector (comparisonType this)) b c of
        (t, r) \<Rightarrow> (this\<lparr>anomalies := anomalies this @ anomalies t\<rparr>, r))"
  by (simp add: detectRangeAnomaly_def Let_def push_def new_detector_def)

lemma mag_outcome: "outcome (detectMagnitudeShift fx lg (new_detector ct) b c) {70, 95}"
  by (simp add: outcome_def detectMagnitudeShift_def Let_def push_def new_detector_def)

lemma unit_outcome: "outcome (detectUnitConversion fx (new_detector ct) b c) {90}"
  by (cases "conversionHeuristics ct")
     (simp_all add: outcome_def detectUnitConversion_def Let_def push_def new_detector_def)

lemma dist_outcome: "outcome (detectDistributionShift fx (new_detector ct) b c) {55, 60}"
  by (simp add: outcome_def detectDistributionShift_def Let_def push_def new_detector_def)

lemma range_outcome: "outcome (detectRangeAnomaly fx (new_detector ct) b c) {65}"
  by (simp add: outcome_def detectRangeAnomaly_def Let_def push_def new_detector_def)

lemma collect_outcome:
  "outcome p K \<Longrightarrow>
     collect S (snd p) = S @ (if anomalies (fst p) = [] then [] else [sig_confidence (snd p)])
     \<and> (anomalies (fst p) \<noteq> [] \<longrightarrow> sig_confidence (snd p) \<in> K)
     \<and> length (anomalies (fst p)) = (if anomalies (fst p) = [] then 0 else 1)"
  by (auto simp: outcome_def collect_def no_signal_def fired_def)

lemma run_detectors_shape:
  "\<exists>ms S. (\<forall>this. comparisonType this = ct \<longrightarrow>
              run_detectors fx lg this b c = (this\<lparr>anomalies := anomalies this @ ms\<rparr>, S))
     \<and> length ms = length S \<and> set S \<subseteq> fixed_scores"
proof -
  define p1 where "p1 = detectMagnitudeShift fx lg (new_detector ct) b c"
  define p2 where "p2 = detectUnitConversion fx (new_detector ct) b c"
  define p3 where "p3 = detectDistributionShift fx (new_detector ct) b c"
  define p4 where "p4 = detectRangeAnomaly fx (new_detector ct) b c"
  have f1: "detectMagnitudeShift fx lg this b c
              = (this\<lparr>anomalies := anomalies this @ anomalies (fst p1)\<rparr>, snd p1)"
    if "comparisonType this = ct" for this
    using that mag_frame [of fx lg this b c] by (simp add: p1_def split: prod.splits)
  have f2: "detectUnitConversion fx this b c
              = (this\<lparr>anomalies := anomalies this @ anomalies (fst p2)\<rparr>, snd p2)"
    if "comparisonType this = ct" for this
    using that unit_frame [of fx this b c] by (simp add: p2_def split: prod.splits)
  have f3: "detectDistributionShift fx this b c
              = (this\<lparr>anomalies := anomalies this @ anomalies (fst p3)\<rparr>, snd p3)"
    if "comparisonType this = ct" for this
    using that dist_frame [of fx this b c] by (simp add: p3_def split: prod.splits)
  have f4: "detectRangeAnomaly fx this b c
              = (this\<lparr>anomalies := anomalies this @ anomalies (fst p4)\<rparr>, snd p4)"
    if "comparisonType this = ct" for this
    using that range_frame [of fx this b c] by (simp add: p4_def split: prod.splits)
  note o1 = collect_outcome [OF mag_outcome [of fx lg ct b c], folded p1_def]
  note o2 = collect_outcome [OF unit_outcome [of fx ct b c], folded p2_def]
  note o3 = collect_outcome [OF dist_outcome [of fx ct b c], folded p3_def]
  note o4 = collect_outcome [OF range_outcome [of fx ct b c], folded p4_def]
  let ?ms = "anomalies (fst p1) @ anomalies (fst p2) @ anomalies (fst p3) @ anomalies (fst p4)"
  let ?S = "collect (collect (collect (collect [] (snd p1)) (snd p2)) (snd p3)) (snd p4)"
  have "run_detectors fx lg this b c = (this\<lparr>anomalies := anomalies this @ ?ms\<rparr>, ?S)"
    if "comparisonType this = ct" for this
    using that by (simp add: run_detectors_def f1 f2 f3 f4)
  moreover have "length ?ms = length ?S"
    using o1 o2 o3 o4 by simp
  moreover have "set ?S \<subseteq> fixed_scores"
    using o1 o2 o3 o4 by (auto simp: fixed_scores_def)
  ultimately show ?thesis by blast
qed

subsection \<open>The logarithm of the magnitude detector\<close>

lemma ex_lg_accurate: "log10_accurate ex_lg"
  by (simp add: log10_accurate_def ex_lg_def)

lemma log_cond_Num:
  "0 < r \<Longrightarrow> js_gt (js_abs (fl_log10 lg (js_abs (Num r)))) (fl_lit 0.5) = (1/2 < \<bar>lg r\<bar>)"
  by (simp add: js_gt_def fl_lit_def binary64_half)

lemma log_cond_big:
  assumes "log10_accurate lg" "10 \<le> r"
  shows "js_gt (js_abs (fl_log10 lg (js_abs (Num r)))) (fl_lit 0.5)"
proof -
  have r: "0 < r" using assms(2) by simp
  have "1 \<le> log 10 r" using assms(2) r by (simp add: le_log_iff)
  moreover have "\<bar>lg r - log 10 r\<bar> \<le> 1/100"
    using assms(1) r by (simp add: log10_accurate_def)
  ultimately have "1/2 < \<bar>lg r\<bar>" by linarith
  then show ?thesis using r by (simp only: log_cond_Num)
qed

lemma log_cond_small:
  assumes "log10_accurate lg" "0 < r" "r \<le> 1/10"
  shows "js_gt (js_abs (fl_log10 lg (js_abs (Num r)))) (fl_lit 0.5)"
proof -
  have "log 10 r \<le> - 1" using assms(2,3) by (simp add: log_le_iff powr_minus_divide)
  moreover have "\<bar>lg r - log 10 r\<bar> \<le> 1/100"
    using assms(1,2) by (simp add: log10_accurate_def)
  ultimately have "1/2 < \<bar>lg r\<bar>" by linarith
  then show ?thesis using assms(2) by (simp only: log_cond_Num)
qed

lemma log10_2_le: "log 10 2 \<le> 49/100"
proof -
  have "log 10 ((2::real) ^ 100) = real 100 * log 10 2" by (rule log_nat_power) simp
  moreover have "log 10 ((10::real) ^ 49) = real 49 * log 10 10" by (rule log_nat_power) simp
  moreover have "log 10 ((2::real) ^ 100) \<le> log 10 (10 ^ 49)"
    by (subst log_le_cancel_iff) simp_all
  ultimately show ?thesis by simp
qed

lemma log_cond_outside:
  assumes acc: "log10_accurate lg"
    and c: "js_gt (js_abs (fl_log10 lg (js_abs q))) (fl_lit 0.5)"
  shows "js_lt q (fl_lit 0.5) \<or> js_gt q (fl_lit 2.0)"
proof (cases q)
  case (Num r)
  show ?thesis
  proof (cases "0 < r")
    case False
    with Num show ?thesis by (simp add: fl_lit_def binary64_half)
  next
    case True
    from c Num True have h: "1/2 < \<bar>lg r\<bar>"
      by (simp add: js_gt_def fl_lit_def binary64_half)
    have a: "\<bar>lg r - log 10 r\<bar> \<le> 1/100"
      using acc True by (simp add: log10_accurate_def)
    have "r < 1/2 \<or> 2 < r"
    proof (rule ccontr)
      assume "\<not> (r < 1/2 \<or> 2 < r)"
      then have b: "1/2 \<le> r" "r \<le> 2" by simp_all
      have "log 10 r \<le> log 10 2" using b True by simp
      moreover have "log 10 (1/2) \<le> log 10 r" using b True by (subst log_le_cancel_iff) simp_all
      moreover have "log 10 (1/2) = - log 10 2" by (simp add: log_divide)
      ultimately have "\<bar>log 10 r\<bar> \<le> 49/100" using log10_2_le by linarith
      with a h show False by linarith
    qed
    with Num show ?thesis
      by (simp add: js_gt_def fl_lit_def binary64_half binary64_numeral)
  qed
next
  case NaN
  with c show ?thesis by (simp add: js_gt_def fl_lit_def)
qed (simp_all add: js_gt_def fl_lit_def binary64_half binary64_numeral)


subsection \<open>The example of a dollar read as 83 rupees\<close>

lemma rupees_ratio: "fl_div (mean ex_inr) (mean ex_one) = Num 83"
  by (simp add: ex_inr_def ex_one_def fl_eval)

lemma rupees_magnitude:
  assumes "log10_accurate lg"
  shows "detectMagnitudeShift ex_fx lg this ex_one ex_inr
     = (push this ''Severe magnitude increase: #% increase (ratio: #)'', fired 95)"
proof -
  have c: "js_gt (js_abs (fl_log10 lg (js_abs (fl_div (mean ex_inr) (mean ex_one))))) (fl_lit 0.5)"
    unfolding rupees_ratio using assms by (intro log_cond_big) simp_all
  show ?thesis
    unfolding detectMagnitudeShift_def Let_def using c
    by (simp add: rupees_ratio) (simp add: ex_one_def ex_fx_def fl_eval)
qed

lemma rupees_unit:
  "comparisonType this = ''currency_usd_to_inr'' \<Longrightarrow>
     detectUnitConversion ex_fx this ex_one ex_inr
       = (push this ''Possible USD to INR conversion: ratio # matches expected #'', fired 90)"
  by (simp add: detectUnitConversion_def conversionHeuristics_def ex_one_def ex_inr_def
        Let_def fl_eval ex_fx_def)

lemma rupees_distribution:
  "detectDistributionShift ex_fx this ex_one ex_inr = (this, no_signal)"
  by (simp add: detectDistributionShift_def ex_one_def ex_inr_def Let_def fl_eval ex_fx_def)

lemma rupees_range: "detectRangeAnomaly ex_fx this ex_one ex_inr = (this, no_signal)"
  by (simp add: detectRangeAnomaly_def ex_one_def ex_inr_def Let_def fl_eval ex_fx_def)

lemma rupees_fired:
  "log10_accurate lg \<Longrightarrow>
     spec_fired ex_fx lg (new_detector ''currency_usd_to_inr'') ex_one ex_inr = [95, 90]"
  by (simp add: spec_fired_def rupees_magnitude rupees_unit rupees_distribution rupees_range
        push_def analyze_reset_def new_detector_def fired_def no_signal_def)

section \<open>The aggregated confidence\<close>

lemma aggregate_spec: "aggregate S = spec_confidence S"
proof (cases S)
  case Nil
  then show ?thesis by (simp add: aggregate_def spec_confidence_def)
next
  case (Cons x xs)
  then show ?thesis
    by (simp add: aggregate_def spec_confidence_def math_max_Max [of S, unfolded Cons] Let_def)
qed

lemma run_detectors_spec_fired:
  "snd (run_detectors fx lg (analyze_reset this) b c) = spec_fired fx lg this b c"
  by (simp add: run_detectors_def spec_fired_def collect_def split: prod.splits)

text \<open>
  Claim C1. The confidence that \<open>analyze\<close> returns is the aggregation rule applied to the
  list \<open>S\<close> of the confidences of the sub-detectors that fired, in their order: 0 for an
  empty list, the element of a one-element list, and
  \<open>min (max S + min ((|S| - 1) * 5) 15) 100\<close> from two elements on. The confidences 70 and
  90 aggregate to 95; 60, 65, 70 and 95 aggregate to 100.
\<close>

theorem analyze_confidence_formula:
  "res_confidence (snd (analyze fx lg this b c)) = spec_confidence (spec_fired fx lg this b c)
   \<and> aggregate [70, 90] = 95
   \<and> aggregate [60, 65, 70, 95] = 100"
proof -
  have "res_confidence (snd (analyze fx lg this b c))
          = aggregate (snd (run_detectors fx lg (analyze_reset this) b c))"
    by (simp add: analyze_def split: prod.splits)
  moreover have "aggregate [70, 90] = 95" "aggregate [60, 65, 70, 95] = 100"
    by (simp_all add: aggregate_def math_max_def)
  ultimately show ?thesis
    by (simp add: aggregate_spec run_detectors_spec_fired)
qed

text \<open>A dollar read as 83 rupees: the magnitude (95) and the conversion (90) fire, and give 100.\<close>

theorem analyze_confidence_formula_witness:
  "res_confidence (snd (analyze ex_fx ex_lg (new_detector ''currency_usd_to_inr'') ex_one ex_inr))
     = 100"
  using analyze_confidence_formula [where fx = ex_fx and lg = ex_lg
      and this = "new_detector ''currency_usd_to_inr''" and b = ex_one and c = ex_inr]
  by (simp add: rupees_fired ex_lg_accurate spec_confidence_def)

lemma rupees_analyze:
  "analyze ex_fx ex_lg (new_detector ''currency_usd_to_inr'') ex_one ex_inr =
     (\<lparr>comparisonType = ''currency_usd_to_inr'',
       anomalies = [''Severe magnitude increase: #% increase (ratio: #)'',
                    ''Possible USD to INR conversion: ratio # matches expected #''],
       confidence = 100\<rparr>,
      \<lparr>res_confidence = 100,
       res_anomalies = [''Severe magnitude increase: #% increase (ratio: #)'',
                        ''Possible USD to INR conversion: ratio # matches expected #''],
       res_detected = True\<rparr>)"
  by (simp add: analyze_def run_detectors_def rupees_magnitude ex_lg_accurate rupees_unit
        rupees_distribution rupees_range push_def analyze_reset_def new_detector_def fired_def
        no_signal_def collect_def aggregate_def math_max_def)

section \<open>What a call of analyze depends on\<close>

text \<open>
  A call is determined by the comparison type and the two summaries: the anomalies are the
  ones appended by the sub-detectors that fired, one each, and the confidence is the
  aggregation of theirs.
\<close>

lemma analyze_shape:
  "\<exists>ms S. (\<forall>this. comparisonType this = ct \<longrightarrow>
              analyze fx lg this b c =
                (this\<lparr>anomalies := ms, confidence := aggregate S\<rparr>,
                 \<lparr>res_confidence = aggregate S, res_anomalies = ms, res_detected = (ms \<noteq> [])\<rparr>))
     \<and> length ms = length S \<and> set S \<subseteq> fixed_scores"
proof -
  from run_detectors_shape [where ct = ct and fx = fx and lg = lg and b = b and c = c]
  obtain ms S where
    run: "\<And>this. comparisonType this = ct \<Longrightarrow>
            run_detectors fx lg this b c = (this\<lparr>anomalies := anomalies this @ ms\<rparr>, S)"
    and len: "length ms = length S" and sub: "set S \<subseteq> fixed_scores"
    by blast
  have "analyze fx lg this b c =
          (this\<lparr>anomalies := ms, confidence := aggregate S\<rparr>,
           \<lparr>res_confidence = aggregate S, res_anomalies = ms, res_detected = (ms \<noteq> [])\<rparr>)"
    if "comparisonType this = ct" for this
    using that run [of "analyze_reset this"] by (simp add: analyze_def analyze_reset_def)
  with len sub show ?thesis by blast
qed

lemma aggregate_fixed:
  assumes "set S \<subseteq> fixed_scores"
  shows "(S = [] \<longrightarrow> aggregate S = 0) \<and> (S \<noteq> [] \<longrightarrow> 55 \<le> aggregate S \<and> aggregate S \<le> 100)"
proof (cases S)
  case Nil
  then show ?thesis by (simp add: aggregate_def)
next
  case (Cons x xs)
  have "Max (set S) \<in> set S" using Cons by (intro Max_in) simp_all
  with assms have m: "55 \<le> Max (set S)" "Max (set S) \<le> 95"
    by (auto simp: fixed_scores_def)
  have x: "55 \<le> x" "x \<le> 95" using assms Cons by (auto simp: fixed_scores_def)
  have ne: "S \<noteq> []" and hd: "hd S = x" using Cons by simp_all
  show ?thesis
    unfolding aggregate_spec spec_confidence_def using ne hd m x by auto
qed

text \<open>
  Claim C10. The result of \<open>analyze\<close> has \<open>detected\<close> exactly when its confidence is at
  least 55. The confidence is never strictly between 0 and 55, and it is 0 exactly when
  the anomaly list is empty: every sub-detector that fires contributes one of 55, 60, 65,
  70, 90, 95 and appends one anomaly.
\<close>

theorem detected_iff_confidence:
  "res_detected (snd (analyze fx lg this b c)) = (55 \<le> res_confidence (snd (analyze fx lg this b c)))
   \<and> \<not> (0 < res_confidence (snd (analyze fx lg this b c))
         \<and> res_confidence (snd (analyze fx lg this b c)) < 55)
   \<and> (res_confidence (snd (analyze fx lg this b c)) = 0)
       = (res_anomalies (snd (analyze fx lg this b c)) = [])
   \<and> set (spec_fired fx lg this b c) \<subseteq> {55, 60, 65, 70, 90, 95}
   \<and> length (res_anomalies (snd (analyze fx lg this b c))) = length (spec_fired fx lg this b c)"
proof -
  from analyze_shape [where ct = "comparisonType this" and fx = fx and lg = lg
      and b = b and c = c]
  obtain ms S where
    an: "analyze fx lg this b c =
           (this\<lparr>anomalies := ms, confidence := aggregate S\<rparr>,
            \<lparr>res_confidence = aggregate S, res_anomalies = ms, res_detected = (ms \<noteq> [])\<rparr>)"
    and len: "length ms = length S" and sub: "set S \<subseteq> fixed_scores"
    by blast
  from run_detectors_shape [where ct = "comparisonType this" and fx = fx and lg = lg
      and b = b and c = c]
  obtain ms' S' where
    run: "\<And>t. comparisonType t = comparisonType this \<Longrightarrow>
            run_detectors fx lg t b c = (t\<lparr>anomalies := anomalies t @ ms'\<rparr>, S')"
    and len': "length ms' = length S'" and sub': "set S' \<subseteq> fixed_scores"
    by blast
  have sf: "spec_fired fx lg this b c = S'"
    using run [of "analyze_reset this"] run_detectors_spec_fired [of fx lg this b c]
    by (simp add: analyze_reset_def)
  have ms: "ms = ms'" and S: "aggregate S = aggregate S'"
    using an run [of "analyze_reset this"] by (simp_all add: analyze_def analyze_reset_def)
  have e: "(ms = []) = (S' = [])" using len' ms by auto
  from aggregate_fixed [OF sub'] e S an sf len' ms sub' show ?thesis
    by (auto simp: fixed_scores_def)
qed

text \<open>A dollar read as 83 rupees: the confidence is 100, so the result is a detection.\<close>

theorem detected_iff_confidence_witness:
  "res_detected (snd (analyze ex_fx ex_lg (new_detector ''currency_usd_to_inr'') ex_one ex_inr))
   \<and> res_anomalies (snd (analyze ex_fx ex_lg (new_detector ''currency_usd_to_inr'') ex_one ex_inr)) \<noteq> []"
proof -
  have "res_confidence (snd (analyze ex_fx ex_lg (new_detector ''currency_usd_to_inr'') ex_one ex_inr)) = 100"
    by (simp add: rupees_analyze)
  with detected_iff_confidence [where fx = ex_fx and lg = ex_lg
      and this = "new_detector ''currency_usd_to_inr''" and b = ex_one and c = ex_inr]
  show ?thesis by simp
qed

text \<open>
  Claim C6. A second call of \<open>analyze\<close> with the same two summaries on the same instance
  returns the same result as the first: the same confidence, the same anomalies in the
  same order, the same \<open>detected\<close>. So does a call after a call with other summaries, and
  a call on an instance left with any anomalies \<open>a\<close> and confidence \<open>k\<close>.
\<close>

theorem analyze_repeatable:
  "snd (analyze fx lg (fst (analyze fx lg this b c)) b c) = snd (analyze fx lg this b c)
   \<and> snd (analyze fx lg (fst (analyze fx lg this b' c')) b c) = snd (analyze fx lg this b c)
   \<and> snd (analyze fx lg (this\<lparr>anomalies := a, confidence := k\<rparr>) b c) = snd (analyze fx lg this b c)"
proof -
  from analyze_shape [where ct = "comparisonType this" and fx = fx and lg = lg
      and b = b and c = c]
  obtain ms S where
    an: "\<And>t. comparisonType t = comparisonType this \<Longrightarrow> analyze fx lg t b c =
           (t\<lparr>anomalies := ms, confidence := aggregate S\<rparr>,
            \<lparr>res_confidence = aggregate S, res_anomalies = ms, res_detected = (ms \<noteq> [])\<rparr>)"
    by blast
  from analyze_shape [where ct = "comparisonType this" and fx = fx and lg = lg
      and b = b' and c = c']
  obtain ms' S' where
    an': "analyze fx lg this b' c' = (this\<lparr>anomalies := ms', confidence := aggregate S'\<rparr>,
            \<lparr>res_confidence = aggregate S', res_anomalies = ms', res_detected = (ms' \<noteq> [])\<rparr>)"
    by blast
  show ?thesis
    using an [of this] an [of "this\<lparr>anomalies := ms, confidence := aggregate S\<rparr>"]
      an [of "this\<lparr>anomalies := ms', confidence := aggregate S'\<rparr>"]
      an [of "this\<lparr>anomalies := a, confidence := k\<rparr>"] an'
    by simp
qed

text \<open>
  A dollar read as 83 rupees, analysed on an instance that has analysed the price drop before:
  the result is the one a fresh instance gives.
\<close>

theorem analyze_repeatable_witness:
  "snd (analyze ex_fx ex_lg
      (fst (analyze ex_fx ex_lg (new_detector ''currency_usd_to_inr'') ex_usd ex_drop))
      ex_one ex_inr) =
     \<lparr>res_confidence = 100,
      res_anomalies = [''Severe magnitude increase: #% increase (ratio: #)'',
                       ''Possible USD to INR conversion: ratio # matches expected #''],
      res_detected = True\<rparr>"
  using analyze_repeatable [where fx = ex_fx and lg = ex_lg
      and this = "new_detector ''currency_usd_to_inr''"
      and b = ex_one and c = ex_inr and b' = ex_usd and c' = ex_drop]
  by (simp add: rupees_analyze)

section \<open>The reset at the start of analyze\<close>

text \<open>
  Claim C5 says that \<open>analyze\<close> starts by emptying the anomaly list and by setting the
  confidence to zero. The first statement, \<open>this.anomalies = []\<close>, does the former only:
  on an instance that an earlier call left with confidence 100, the confidence is still 100
  when the sub-detectors run.
\<close>

theorem confidence_not_reset_at_start:
  "confidence (analyze_reset
      (fst (analyze ex_fx ex_lg (new_detector ''currency_usd_to_inr'') ex_one ex_inr))) \<noteq> 0"
  by (simp add: rupees_analyze analyze_reset_def)

text \<open>
  Claim C5, amended. At the start of \<open>analyze\<close> the anomaly list is emptied and the
  confidence keeps its value, also while the four sub-detectors run; the aggregation at the
  end assigns it. Nothing of what an earlier call left is carried into the new
  call: the instance and the result that \<open>analyze\<close> returns are the same whatever anomalies
  \<open>a\<close> and confidence \<open>k\<close> the instance held, and the confidence and the anomalies of the
  instance after the call are those of the result.
\<close>

theorem analyze_reset_frame:
  "anomalies (analyze_reset this) = []
   \<and> confidence (analyze_reset this) = confidence this
   \<and> confidence (fst (run_detectors fx lg (analyze_reset this) b c)) = confidence this
   \<and> analyze fx lg (this\<lparr>anomalies := a, confidence := k\<rparr>) b c = analyze fx lg this b c
   \<and> confidence (fst (analyze fx lg this b c)) = res_confidence (snd (analyze fx lg this b c))
   \<and> anomalies (fst (analyze fx lg this b c)) = res_anomalies (snd (analyze fx lg this b c))"
proof -
  from analyze_shape [where ct = "comparisonType this" and fx = fx and lg = lg
      and b = b and c = c]
  obtain ms S where
    an: "\<And>t. comparisonType t = comparisonType this \<Longrightarrow> analyze fx lg t b c =
           (t\<lparr>anomalies := ms, confidence := aggregate S\<rparr>,
            \<lparr>res_confidence = aggregate S, res_anomalies = ms, res_detected = (ms \<noteq> [])\<rparr>)"
    by blast
  from run_detectors_shape [where ct = "comparisonType this" and fx = fx and lg = lg
      and b = b and c = c]
  obtain ms' S' where
    run: "\<And>t. comparisonType t = comparisonType this \<Longrightarrow>
            run_detectors fx lg t b c = (t\<lparr>anomalies := anomalies t @ ms'\<rparr>, S')"
    by blast
  show ?thesis
    using an [of this] an [of "this\<lparr>anomalies := a, confidence := k\<rparr>"]
      run [of "analyze_reset this"]
    by (simp add: analyze_reset_def)
qed

text \<open>
  The instance left by the analysis of a dollar read as 83 rupees, at the start of a new
  call.
\<close>

theorem analyze_reset_frame_witness:
  "anomalies (analyze_reset
      (fst (analyze ex_fx ex_lg (new_detector ''currency_usd_to_inr'') ex_one ex_inr))) = []
   \<and> confidence (analyze_reset
      (fst (analyze ex_fx ex_lg (new_detector ''currency_usd_to_inr'') ex_one ex_inr))) = 100"
  using analyze_reset_frame
    [where this = "fst (analyze ex_fx ex_lg (new_detector ''currency_usd_to_inr'') ex_one ex_inr)"]
  by (simp add: rupees_analyze)

section \<open>The magnitude detector\<close>

lemma real_log_outside:
  assumes "(r::real) \<noteq> 0" "1/2 < \<bar>log 10 \<bar>r\<bar>\<bar>"
  shows "r < 1/2 \<or> 2 < r"
proof (rule ccontr)
  assume "\<not> (r < 1/2 \<or> 2 < r)"
  then have b: "1/2 \<le> r" "r \<le> 2" by simp_all
  then have "r * r \<le> 2 * 2" "1/2 * (1/2) \<le> r * r"
    by (intro mult_mono; simp)+
  then have "\<not> 10 < r\<^sup>2" "\<not> 10 * r\<^sup>2 < 1" by (simp_all add: power2_eq_square)
  moreover have "0 < \<bar>r\<bar>" using assms(1) by simp
  ultimately show False using abs_log10_gt_half [of "\<bar>r\<bar>"] assms(2) by simp
qed

text \<open>
  Claim C2. The magnitude detector does nothing (no anomaly, not detected, confidence 0) when
  the baseline mean is zero, and also when \<open>|log10 |ratio||\<close> is not above 0.5, for
  \<open>ratio = current.mean / baseline.mean\<close>. Otherwise a ratio below 0.1 gives detected
  with confidence 95 and an anomaly that starts with ``Severe magnitude drop'', a ratio above
  10 gives 95, a ratio below 0.5 or above 2.0 gives 70, and the remaining case records
  nothing. That last case cannot occur: a ratio \<open>q\<close> that meets the logarithm's
  condition is below 0.5 or above 2.0, both for the number \<open>q\<close> of the program, with
  \<open>Math.log10\<close> within a hundredth of the logarithm, and for a real \<open>r\<close>. Means 100
  and 5 give the severe drop.
\<close>

theorem magnitude_shift_tiers:
  "(case spec_magnitude lg b c of
      None \<Rightarrow>
        detectMagnitudeShift fx lg this b c
          = (this, \<lparr>sig_detected = False, sig_confidence = 0\<rparr>)
    | Some (k, txt) \<Rightarrow>
        (\<exists>rest. detectMagnitudeShift fx lg this b c
           = (this\<lparr>anomalies := anomalies this @ [txt @ rest]\<rparr>,
              \<lparr>sig_detected = True, sig_confidence = k\<rparr>)))
   \<and> (log10_accurate lg \<and> js_gt (js_abs (fl_log10 lg (js_abs q))) (fl_lit 0.5) \<longrightarrow>
        js_lt q (fl_lit 0.5) \<or> js_gt q (fl_lit 2.0))
   \<and> (r \<noteq> 0 \<and> 1/2 < \<bar>log 10 \<bar>r\<bar>\<bar> \<longrightarrow> r < 1/2 \<or> 2 < r)
   \<and> (log10_accurate lg \<and> mean b = Num 100 \<and> mean c = Num 5 \<longrightarrow>
        spec_magnitude lg b c = Some (95, ''Severe magnitude drop''))"
proof (intro conjI impI)
  show "case spec_magnitude lg b c of
      None \<Rightarrow>
        detectMagnitudeShift fx lg this b c
          = (this, \<lparr>sig_detected = False, sig_confidence = 0\<rparr>)
    | Some (k, txt) \<Rightarrow>
        (\<exists>rest. detectMagnitudeShift fx lg this b c
           = (this\<lparr>anomalies := anomalies this @ [txt @ rest]\<rparr>,
              \<lparr>sig_detected = True, sig_confidence = k\<rparr>))"
    by (auto simp: spec_magnitude_def detectMagnitudeShift_def Let_def push_def fired_def
          no_signal_def intro!: exI)
next
  assume "log10_accurate lg \<and> js_gt (js_abs (fl_log10 lg (js_abs q))) (fl_lit 0.5)"
  then show "js_lt q (fl_lit 0.5) \<or> js_gt q (fl_lit 2.0)"
    using log_cond_outside by blast
next
  assume "r \<noteq> 0 \<and> 1/2 < \<bar>log 10 \<bar>r\<bar>\<bar>"
  then show "r < 1/2 \<or> 2 < r" using real_log_outside by blast
next
  assume a: "log10_accurate lg \<and> mean b = Num 100 \<and> mean c = Num 5"
  have ratio: "fl_div (mean c) (mean b) = Num (3602879701896397 / 72057594037927936)"
    using a by (simp add: fl_eval)
  have c: "js_gt (js_abs (fl_log10 lg (js_abs (fl_div (mean c) (mean b))))) (fl_lit 0.5)"
    unfolding ratio using a by (intro log_cond_small) simp_all
  show "spec_magnitude lg b c = Some (95, ''Severe magnitude drop'')"
    unfolding spec_magnitude_def Let_def using c a
    by (simp add: ratio) (simp add: fl_eval)
qed

text \<open>
  A price of 100 that drops to 5, with the logarithm itself for \<open>Math.log10\<close>; a ratio
  of a sixteenth.
\<close>

theorem magnitude_shift_tiers_witness:
  "(\<exists>rest. detectMagnitudeShift ex_fx ex_lg (new_detector ''currency_usd_to_inr'') ex_usd ex_drop
      = ((new_detector ''currency_usd_to_inr'')
           \<lparr>anomalies := [''Severe magnitude drop'' @ rest]\<rparr>,
         \<lparr>sig_detected = True, sig_confidence = 95\<rparr>))
   \<and> (js_lt (Num (1/16)) (fl_lit 0.5) \<or> js_gt (Num (1/16)) (fl_lit 2.0))
   \<and> ((1/16 :: real) < 1/2 \<or> (2::real) < 1/16)"
proof -
  have m: "log10_accurate ex_lg \<and> mean ex_usd = Num 100 \<and> mean ex_drop = Num 5"
    by (simp add: ex_usd_def ex_drop_def ex_lg_accurate)
  have l: "log10_accurate ex_lg \<and> js_gt (js_abs (fl_log10 ex_lg (js_abs (Num (1/16))))) (fl_lit 0.5)"
    using ex_lg_accurate log_cond_small [of ex_lg "1/16"] by simp
  have "log 10 (1/16) \<le> - 1" by (simp add: log_le_iff powr_minus_divide)
  then have rl: "(1/16::real) \<noteq> 0 \<and> 1/2 < \<bar>log 10 \<bar>1/16\<bar>\<bar>" by simp
  note t = magnitude_shift_tiers [where b = ex_usd and c = ex_drop and fx = ex_fx and lg = ex_lg
      and this = "new_detector ''currency_usd_to_inr''" and q = "Num (1/16)" and r = "1/16"]
  from t m have "spec_magnitude ex_lg ex_usd ex_drop = Some (95, ''Severe magnitude drop'')"
    by blast
  with t l rl show ?thesis by (simp add: new_detector_def)
qed

section \<open>The unit-conversion detector\<close>

lemma heuristics_spec_table:
  "conversionHeuristics ct =
     (case spec_table ct of
        Some (e, t) \<Rightarrow> Some \<lparr>ratio = Some (fl_lit e), offset = offset (the (conversionHeuristics ct)),
                              tolerance = Some (fl_lit t),
                              description = description (the (conversionHeuristics ct))\<rparr>
      | None \<Rightarrow> conversionHeuristics ct)
   \<and> (spec_table ct = None \<longrightarrow>
        (case conversionHeuristics ct of None \<Rightarrow> True | Some h \<Rightarrow> ratio h = None))"
  by (simp add: conversionHeuristics_def spec_table_def)

lemma table_ratio_truthy:
  assumes "spec_table ct = Some (e, t)"
  shows "\<not> js_falsy (fl_lit e)"
proof -
  from assms have "e = 83 \<or> e = 150 \<or> e = 9/5 \<or> e = 82021/25000"
    by (auto simp: spec_table_def split: if_splits)
  moreover have "\<not> js_falsy (fl_lit 83)" "\<not> js_falsy (fl_lit 150)"
    "\<not> js_falsy (fl_lit (9/5))" "\<not> js_falsy (fl_lit (82021/25000))"
    by (simp_all add: fl_lit_def binary64_values)
  ultimately show ?thesis by blast
qed

text \<open>
  Claim C3. The unit-conversion detector does nothing (no anomaly, not detected, confidence
  0) when the comparison type has no expected ratio in the table or the baseline mean is
  zero. Otherwise it returns detected with confidence 90 when
  \<open>|ratio - expected| / expected\<close> is below the tolerance (the anomaly appended prints the
  ratio), else detected with confidence 90 when the same holds of \<open>1 / ratio\<close> (the anomaly
  says ``inverse'' and prints \<open>1 / ratio\<close>), else not detected. A call appends at most one
  anomaly. Means 1 and 83 with \<open>currency_usd_to_inr\<close> match forward.
\<close>

theorem unit_conversion_match:
  "(case spec_unit (comparisonType this) b c of
      None \<Rightarrow>
        detectUnitConversion fx this b c
          = (this, \<lparr>sig_detected = False, sig_confidence = 0\<rparr>)
    | Some Forward \<Rightarrow>
        (\<exists>d rest. detectUnitConversion fx this b c =
           (this\<lparr>anomalies := anomalies this
                    @ [''Possible '' @ d @ '': ratio '' @ fx (fl_div (mean c) (mean b)) 2 @ rest]\<rparr>,
            \<lparr>sig_detected = True, sig_confidence = 90\<rparr>))
    | Some Inverse \<Rightarrow>
        (\<exists>d rest. detectUnitConversion fx this b c =
           (this\<lparr>anomalies := anomalies this
                    @ [''Possible inverse '' @ d @ '': ratio ''
                       @ fx (fl_div (fl_lit 1) (fl_div (mean c) (mean b))) 2 @ rest]\<rparr>,
            \<lparr>sig_detected = True, sig_confidence = 90\<rparr>)))
   \<and> length (anomalies (fst (detectUnitConversion fx this b c))) \<le> length (anomalies this) + 1
   \<and> (mean b = Num 1 \<and> mean c = Num 83 \<longrightarrow> spec_unit ''currency_usd_to_inr'' b c = Some Forward)"
proof (intro conjI impI)
  show "case spec_unit (comparisonType this) b c of
      None \<Rightarrow>
        detectUnitConversion fx this b c
          = (this, \<lparr>sig_detected = False, sig_confidence = 0\<rparr>)
    | Some Forward \<Rightarrow>
        (\<exists>d rest. detectUnitConversion fx this b c =
           (this\<lparr>anomalies := anomalies this
                    @ [''Possible '' @ d @ '': ratio '' @ fx (fl_div (mean c) (mean b)) 2 @ rest]\<rparr>,
            \<lparr>sig_detected = True, sig_confidence = 90\<rparr>))
    | Some Inverse \<Rightarrow>
        (\<exists>d rest. detectUnitConversion fx this b c =
           (this\<lparr>anomalies := anomalies this
                    @ [''Possible inverse '' @ d @ '': ratio ''
                       @ fx (fl_div (fl_lit 1) (fl_div (mean c) (mean b))) 2 @ rest]\<rparr>,
            \<lparr>sig_detected = True, sig_confidence = 90\<rparr>))"
  proof (cases "spec_table (comparisonType this)")
    case None
    with heuristics_spec_table [of "comparisonType this"] show ?thesis
      by (auto simp: spec_unit_def detectUnitConversion_def no_signal_def split: option.splits)
  next
    case (Some p)
    obtain e t where p: "p = (e, t)" by (cases p)
    from Some p have e: "\<not> js_falsy (fl_lit e)" by (simp add: table_ratio_truthy)
    from Some p heuristics_spec_table [of "comparisonType this"]
    obtain h where h: "conversionHeuristics (comparisonType this) = Some h"
      "ratio h = Some (fl_lit e)" "tolerance h = Some (fl_lit t)"
      by auto
    show ?thesis
      using Some p h e
      by (auto simp: spec_unit_def detectUnitConversion_def Let_def push_def fired_def
            no_signal_def intro!: exI)
  qed
next
  show "length (anomalies (fst (detectUnitConversion fx this b c))) \<le> length (anomalies this) + 1"
    using unit_frame [of fx this b c] unit_outcome [of fx "comparisonType this" b c]
    by (auto simp: outcome_def split: prod.splits)
next
  assume "mean b = Num 1 \<and> mean c = Num 83"
  then show "spec_unit ''currency_usd_to_inr'' b c = Some Forward"
    by (simp add: spec_unit_def spec_table_def fl_eval)
qed

text \<open>A mean of 1 that becomes 83, compared as US dollars to rupees.\<close>

theorem unit_conversion_match_witness:
  "\<exists>d rest. detectUnitConversion ex_fx (new_detector ''currency_usd_to_inr'') ex_one ex_inr =
     ((new_detector ''currency_usd_to_inr'')
        \<lparr>anomalies := [''Possible '' @ d @ '': ratio #'' @ rest]\<rparr>,
      \<lparr>sig_detected = True, sig_confidence = 90\<rparr>)"
proof -
  have m: "mean ex_one = Num 1 \<and> mean ex_inr = Num 83"
    by (simp add: ex_one_def ex_inr_def)
  note t = unit_conversion_match [where b = ex_one and c = ex_inr and fx = ex_fx
      and this = "new_detector ''currency_usd_to_inr''"]
  from t m have "spec_unit ''currency_usd_to_inr'' ex_one ex_inr = Some Forward"
    by blast
  with t show ?thesis by (simp add: new_detector_def ex_fx_def)
qed

section \<open>The distribution detector\<close>

text \<open>
  Claim C4. When both coefficients of variation are finite and their ratio is outside 0.5 to
  2.0, the distribution detector returns detected with confidence 60, appends the
  variability anomaly, and the medians are not read: other medians \<open>m\<close>, \<open>m'\<close> give the
  same. It returns confidence 55 exactly when the coefficients are finite, their ratio is
  not outside, and the median-to-mean ratio moved by more than 0.2; the anomaly is then the
  one of the skew. A call appends no anomaly or one, never two.
\<close>

theorem distribution_shift_exclusive:
  "(cv_finite b c \<and> cv_outside b c \<longrightarrow>
      (\<exists>rest. detectDistributionShift fx this b c
                 = (this\<lparr>anomalies := anomalies this @ [''Distribution variability '' @ rest]\<rparr>,
                    \<lparr>sig_detected = True, sig_confidence = 60\<rparr>))
      \<and> detectDistributionShift fx this (b\<lparr>median := m\<rparr>) (c\<lparr>median := m'\<rparr>)
          = detectDistributionShift fx this b c)
   \<and> (snd (detectDistributionShift fx this b c) = \<lparr>sig_detected = True, sig_confidence = 55\<rparr>)
       = (cv_finite b c \<and> \<not> cv_outside b c \<and> skew_shift b c)
   \<and> (snd (detectDistributionShift fx this b c) = \<lparr>sig_detected = True, sig_confidence = 55\<rparr> \<longrightarrow>
        (\<exists>rest. detectDistributionShift fx this b c
                   = (this\<lparr>anomalies := anomalies this @ [''Distribution skew changed'' @ rest]\<rparr>,
                      \<lparr>sig_detected = True, sig_confidence = 55\<rparr>)))
   \<and> (snd (detectDistributionShift fx this b c) = \<lparr>sig_detected = True, sig_confidence = 60\<rparr>)
       = (cv_finite b c \<and> cv_outside b c)
   \<and> (sig_detected (snd (detectDistributionShift fx this b c))
        = (cv_finite b c \<and> (cv_outside b c \<or> skew_shift b c)))
   \<and> (anomalies (fst (detectDistributionShift fx this b c)) = anomalies this
        \<or> (\<exists>s. anomalies (fst (detectDistributionShift fx this b c)) = anomalies this @ [s]))
   \<and> \<not> (\<exists>s s'. anomalies (fst (detectDistributionShift fx this b c)) = anomalies this @ [s, s'])"
  by (auto simp: cv_finite_def cv_outside_def skew_shift_def detectDistributionShift_def Let_def
        push_def fired_def no_signal_def intro!: exI)

text \<open>
  A spread that grows fourfold while the median moves: the variability alone is recorded.
  The same move of the median with the spread unchanged: the skew is recorded.
\<close>

theorem distribution_shift_exclusive_witness:
  "(\<exists>rest. detectDistributionShift ex_fx (new_detector ''x'') ex_base ex_spread
              = ((new_detector ''x'')\<lparr>anomalies := [''Distribution variability '' @ rest]\<rparr>,
                 \<lparr>sig_detected = True, sig_confidence = 60\<rparr>))
   \<and> skew_shift ex_base ex_spread
   \<and> (\<exists>rest. detectDistributionShift ex_fx (new_detector ''x'') ex_base ex_skew
              = ((new_detector ''x'')\<lparr>anomalies := [''Distribution skew changed'' @ rest]\<rparr>,
                 \<lparr>sig_detected = True, sig_confidence = 55\<rparr>))"
proof -
  have a: "cv_finite ex_base ex_spread \<and> cv_outside ex_base ex_spread"
    by (simp add: cv_finite_def cv_outside_def ex_base_def ex_spread_def fl_eval)
  have b: "skew_shift ex_base ex_spread"
    by (simp add: skew_shift_def ex_base_def ex_spread_def fl_eval)
  have c: "cv_finite ex_base ex_skew \<and> \<not> cv_outside ex_base ex_skew \<and> skew_shift ex_base ex_skew"
    by (simp add: cv_finite_def cv_outside_def skew_shift_def ex_base_def ex_skew_def fl_eval
         )
  have n: "anomalies (new_detector ''x'') = []" by (simp add: new_detector_def)
  from a b c show ?thesis
    using distribution_shift_exclusive [where b = ex_base and c = ex_spread and fx = ex_fx
      and this = "new_detector ''x''"]
      distribution_shift_exclusive [where b = ex_base and c = ex_skew and fx = ex_fx
      and this = "new_detector ''x''"]
    unfolding n append_Nil by blast
qed

section \<open>Degenerate summaries\<close>

lemma zero_mean_cv: "js_seq m (Num 0) \<Longrightarrow> \<not> js_isFinite (fl_div s m)"
  by (cases m; cases s) (auto simp: fl_div_def js_inf_def)

lemma nan_cv: "s = NaN \<or> m = NaN \<Longrightarrow> \<not> js_isFinite (fl_div s m)"
  by (auto simp: fl_div_def)

lemma join_nonempty: "x \<noteq> [] \<Longrightarrow> join sep (x # xs) \<noteq> []"
  by (cases xs) simp_all

lemma generateDiagnostics_nonempty: "generateDiagnostics this \<noteq> []"
proof -
  define b where "b =
    (if confidence this \<ge> 90 then banner_high
     else if confidence this \<ge> 70 then banner_medium
     else if confidence this \<ge> 50 then banner_low
     else banner_none)"
  define rest where "rest =
    (case conversionHeuristics (comparisonType this) of
       Some h \<Rightarrow> [newline @ ''Analysis type: '' @ js_string (description h)]
     | None \<Rightarrow> [])
    @ (if length (anomalies this) > 0
       then [newline @ ''Detected anomalies:''] @ numbered 0 (anomalies this) @ common_causes
       else [])"
  have "generateDiagnostics this = join newline (b # rest)"
    by (simp add: generateDiagnostics_def Let_def b_def rest_def split: option.splits)
  moreover have "b \<noteq> []"
    by (simp add: b_def banner_high_def banner_medium_def banner_low_def banner_none_def)
  ultimately show ?thesis using join_nonempty by simp
qed

text \<open>
  Claim C7. \<open>analyze\<close> and \<open>generateDiagnostics\<close> have no statement that throws and apply
  to numbers only operations that are defined on every number, so they are functions of the
  instance and the summaries. On a degenerate summary the sub-detector concerned returns
  not detected with confidence 0 and leaves the instance as it is: a baseline mean of zero
  (magnitude, conversion and distribution, whatever the current summary is), a baseline
  range of zero (range), a coefficient of variation that is not finite, as a zero mean or a
  NaN makes it (distribution). \<open>analyze\<close> returns a confidence of at most 100 and
  \<open>generateDiagnostics\<close> returns a text.
\<close>

theorem sub_detectors_abstain:
  "(js_seq (mean b) (Num 0) \<longrightarrow>
      detectMagnitudeShift fx lg this b c = (this, no_signal)
      \<and> detectUnitConversion fx this b c = (this, no_signal)
      \<and> detectDistributionShift fx this b c = (this, no_signal))
   \<and> (js_seq (fl_sub (max_stat b) (min_stat b)) (Num 0) \<longrightarrow>
        detectRangeAnomaly fx this b c = (this, no_signal))
   \<and> (\<not> js_isFinite (fl_div (std_dev b) (mean b)) \<or> \<not> js_isFinite (fl_div (std_dev c) (mean c)) \<longrightarrow>
        detectDistributionShift fx this b c = (this, no_signal))
   \<and> (js_seq (mean c) (Num 0) \<or> mean b = NaN \<or> mean c = NaN \<or> std_dev b = NaN \<or> std_dev c = NaN \<longrightarrow>
        detectDistributionShift fx this b c = (this, no_signal))
   \<and> no_signal = \<lparr>sig_detected = False, sig_confidence = 0\<rparr>
   \<and> res_confidence (snd (analyze fx lg this b c)) \<le> 100
   \<and> generateDiagnostics (fst (analyze fx lg this b c)) \<noteq> []"
proof (intro conjI impI)
  assume z: "js_seq (mean b) (Num 0)"
  show "detectMagnitudeShift fx lg this b c = (this, no_signal)"
    using z by (simp add: detectMagnitudeShift_def)
  show "detectUnitConversion fx this b c = (this, no_signal)"
    using z by (simp add: detectUnitConversion_def split: option.splits)
  show "detectDistributionShift fx this b c = (this, no_signal)"
    using zero_mean_cv [OF z, of "std_dev b"] by (simp add: detectDistributionShift_def)
next
  assume "js_seq (fl_sub (max_stat b) (min_stat b)) (Num 0)"
  then show "detectRangeAnomaly fx this b c = (this, no_signal)"
    by (simp add: detectRangeAnomaly_def)
next
  assume "\<not> js_isFinite (fl_div (std_dev b) (mean b)) \<or> \<not> js_isFinite (fl_div (std_dev c) (mean c))"
  then show "detectDistributionShift fx this b c = (this, no_signal)"
    by (auto simp: detectDistributionShift_def)
next
  assume "js_seq (mean c) (Num 0) \<or> mean b = NaN \<or> mean c = NaN \<or> std_dev b = NaN \<or> std_dev c = NaN"
  then have "\<not> js_isFinite (fl_div (std_dev b) (mean b)) \<or> \<not> js_isFinite (fl_div (std_dev c) (mean c))"
    using zero_mean_cv [of "mean c" "std_dev c"] nan_cv [of "std_dev b" "mean b"]
      nan_cv [of "std_dev c" "mean c"] by blast
  then show "detectDistributionShift fx this b c = (this, no_signal)"
    by (auto simp: detectDistributionShift_def)
next
  show "no_signal = \<lparr>sig_detected = False, sig_confidence = 0\<rparr>"
    by (simp add: no_signal_def)
next
  from analyze_shape [where ct = "comparisonType this" and fx = fx and lg = lg and b = b and c = c]
  obtain ms S where
    an: "analyze fx lg this b c =
           (this\<lparr>anomalies := ms, confidence := aggregate S\<rparr>,
            \<lparr>res_confidence = aggregate S, res_anomalies = ms, res_detected = (ms \<noteq> [])\<rparr>)"
    and sub: "set S \<subseteq> fixed_scores"
    by blast
  from aggregate_fixed [OF sub] an
  show "res_confidence (snd (analyze fx lg this b c)) \<le> 100"
    by (cases "S = []") simp_all
next
  show "generateDiagnostics (fst (analyze fx lg this b c)) \<noteq> []"
    by (rule generateDiagnostics_nonempty)
qed

text \<open>
  An all-zero baseline: the four sub-detectors abstain. An all-zero current summary: its
  coefficient of variation is NaN and the distribution detector abstains.
\<close>

theorem sub_detectors_abstain_witness:
  "detectMagnitudeShift ex_fx ex_lg (new_detector ''currency_usd_to_inr'') ex_zero ex_inr
     = (new_detector ''currency_usd_to_inr'', no_signal)
   \<and> detectUnitConversion ex_fx (new_detector ''currency_usd_to_inr'') ex_zero ex_inr
     = (new_detector ''currency_usd_to_inr'', no_signal)
   \<and> detectDistributionShift ex_fx (new_detector ''currency_usd_to_inr'') ex_zero ex_inr
     = (new_detector ''currency_usd_to_inr'', no_signal)
   \<and> detectRangeAnomaly ex_fx (new_detector ''currency_usd_to_inr'') ex_zero ex_inr
     = (new_detector ''currency_usd_to_inr'', no_signal)
   \<and> detectDistributionShift ex_fx (new_detector ''currency_usd_to_inr'') ex_usd ex_zero
     = (new_detector ''currency_usd_to_inr'', no_signal)"
proof -
  have z: "js_seq (mean ex_zero) (Num 0)"
    "js_seq (fl_sub (max_stat ex_zero) (min_stat ex_zero)) (Num 0)"
    by (simp_all add: ex_zero_def fl_eval)
  have n: "\<not> js_isFinite (fl_div (std_dev ex_usd) (mean ex_usd))
           \<or> \<not> js_isFinite (fl_div (std_dev ex_zero) (mean ex_zero))"
    by (simp add: ex_zero_def fl_eval)
  from z sub_detectors_abstain [where b = ex_zero and c = ex_inr and fx = ex_fx and lg = ex_lg
      and this = "new_detector ''currency_usd_to_inr''"]
  have a: "detectMagnitudeShift ex_fx ex_lg (new_detector ''currency_usd_to_inr'') ex_zero ex_inr
     = (new_detector ''currency_usd_to_inr'', no_signal)
   \<and> detectUnitConversion ex_fx (new_detector ''currency_usd_to_inr'') ex_zero ex_inr
     = (new_detector ''currency_usd_to_inr'', no_signal)
   \<and> detectDistributionShift ex_fx (new_detector ''currency_usd_to_inr'') ex_zero ex_inr
     = (new_detector ''currency_usd_to_inr'', no_signal)
   \<and> detectRangeAnomaly ex_fx (new_detector ''currency_usd_to_inr'') ex_zero ex_inr
     = (new_detector ''currency_usd_to_inr'', no_signal)"
    by blast
  from z(1) n sub_detectors_abstain [where b = ex_usd and c = ex_zero and fx = ex_fx and lg = ex_lg
      and this = "new_detector ''currency_usd_to_inr''"]
  have "detectDistributionShift ex_fx (new_detector ''currency_usd_to_inr'') ex_usd ex_zero
     = (new_detector ''currency_usd_to_inr'', no_signal)"
    by blast
  with a show ?thesis by blast
qed

section \<open>Rounding at the thresholds\<close>

text \<open>
  Where the exact value of an expression lies on a threshold, the double that the
  operations compute decides. Four such inputs follow, each with what exact arithmetic
  would give.
\<close>

lemma binary64_fahrenheit_ratio: "binary64 (99/50) = 4458563631096791 / 2251799813685248"
  using binary64_up [of 0 "99/50"] by (simp add: round_even_def)

lemma binary64_fahrenheit_diff:
  "binary64 (810647932926689 / 4503599627370496) = 810647932926689 / 4503599627370496"
  using binary64_dyadic [of 810647932926689 52] by simp

lemma binary64_fahrenheit_error:
  "binary64 (810647932926689 / 8106479329266893) = 7205759403792791 / 72057594037927936"
  using binary64_down [of "810647932926689 / 8106479329266893" 4] by (simp add: round_even_def)

lemma binary64_seven_tenths: "binary64 (7/10) = 3152519739159347 / 4503599627370496"
  using binary64_down [of "7/10" 1] by (simp add: round_even_def)

lemma binary64_nine_tenths: "binary64 (9/10) = 8106479329266893 / 9007199254740992"
  using binary64_down [of "9/10" 1] by (simp add: round_even_def)

lemma binary64_skew_diff:
  "binary64 (1801439850948199 / 9007199254740992) = 1801439850948199 / 9007199254740992"
  using binary64_dyadic [of 1801439850948199 53] by simp

lemma binary64_hundredth: "binary64 (1/100) = 5764607523034235 / 576460752303423488"
  using binary64_down [of "1/100" 7] by (simp add: round_even_def)

lemma binary64_tenfold: "binary64 (57646075230342352 / 5764607523034235) = 10"
  using binary64_up [of 3 "57646075230342352 / 5764607523034235"] by (simp add: round_even_def)

lemma binary64_sqrt10:
  "binary64 (7120816245988179 / 2251799813685248) = 7120816245988179 / 2251799813685248"
  using binary64_dyadic [of 7120816245988179 51] by simp

text \<open>
  Celsius to Fahrenheit, means 100 and 198. The ratio 1.98 is off the expected 1.8 by a
  tenth exactly, which is the tolerance and would not be below it; the doubles give an error
  of \<open>0.09999999999999996\<close>, and the detector fires.
\<close>

lemma fahrenheit_threshold:
  assumes "comparisonType this = ''temperature_c_to_f''" "mean b = Num 100" "mean c = Num 198"
  shows "detectUnitConversion fx this b c
           = (push this (''Possible Celsius to Fahrenheit: ratio ''
                          @ fx (Num (4458563631096791 / 2251799813685248)) 2
                          @ '' matches expected '' @ fx (fl_lit 1.8) 2),
              fired 90)"
proof -
  have r: "fl_div (mean c) (mean b) = Num (4458563631096791 / 2251799813685248)"
    using assms by (simp add: fl_eval binary64_fahrenheit_ratio)
  have d: "fl_sub (Num (4458563631096791 / 2251799813685248)) (fl_lit (9/5))
             = Num (810647932926689 / 4503599627370496)"
    by (simp add: fl_eval binary64_fahrenheit_diff)
  have e: "fl_div (Num (810647932926689 / 4503599627370496)) (fl_lit (9/5))
             = Num (7205759403792791 / 72057594037927936)"
    by (simp add: fl_eval binary64_fahrenheit_error)
  have l: "js_lt (Num (7205759403792791 / 72057594037927936)) (fl_lit (1/10))"
    by (simp add: fl_eval)
  have t: "\<not> js_falsy (fl_lit (9/5))" "\<not> js_seq (mean b) (Num 0)"
    using assms by (simp_all add: fl_eval)
  show ?thesis
    unfolding detectUnitConversion_def Let_def r
    using assms(1) t l by (simp add: conversionHeuristics_def d e r)
qed

text \<open>
  Means 10, a spread of 1, medians 7 and 9. The median-to-mean ratio moves from 0.7 to 0.9,
  by the threshold 0.2 exactly; the doubles differ by \<open>0.20000000000000007\<close>, and the
  detector fires.
\<close>

lemma skew_threshold:
  assumes "mean b = Num 10" "mean c = Num 10" "std_dev b = Num 1" "std_dev c = Num 1"
    "median b = Num 7" "median c = Num 9"
  shows "detectDistributionShift fx this b c
           = (push this (''Distribution skew changed: median/mean ratio shifted by ''
                          @ fx (fl_mul (Num (1801439850948199 / 9007199254740992)) (fl_lit 100)) 1
                          @ ''%''),
              fired 55)"
proof -
  have cv: "fl_div (std_dev b) (mean b) = Num (3602879701896397 / 36028797018963968)"
    "fl_div (std_dev c) (mean c) = Num (3602879701896397 / 36028797018963968)"
    using assms by (simp_all add: fl_eval)
  have q: "fl_div (Num (3602879701896397 / 36028797018963968))
             (Num (3602879701896397 / 36028797018963968)) = Num 1"
    by (simp add: fl_eval)
  have m: "fl_div (median b) (mean b) = Num (3152519739159347 / 4503599627370496)"
    "fl_div (median c) (mean c) = Num (8106479329266893 / 9007199254740992)"
    using assms by (simp_all add: fl_eval binary64_seven_tenths binary64_nine_tenths)
  have s: "js_abs (fl_sub (Num (8106479329266893 / 9007199254740992))
                          (Num (3152519739159347 / 4503599627370496)))
             = Num (1801439850948199 / 9007199254740992)"
    by (simp add: fl_eval binary64_skew_diff)
  have g: "js_gt (Num (1801439850948199 / 9007199254740992)) (fl_lit 0.2)"
    "\<not> js_gt (Num 1) (fl_lit 2.0)" "\<not> js_lt (Num 1) (fl_lit 0.5)"
    by (simp_all add: fl_eval)
  show ?thesis
    unfolding detectDistributionShift_def Let_def cv q m s
    using g by simp
qed

text \<open>
  Means 1 and \<open>3.1622776601683795\<close>, the double next above the square root of ten. Its
  logarithm is above a half; where \<open>Math.log10\<close> returns a half for it, nothing is
  recorded.
\<close>

lemma sqrt10_threshold:
  assumes "lg (7120816245988179 / 2251799813685248) = 1/2"
    "mean b = Num 1" "mean c = Num (7120816245988179 / 2251799813685248)"
  shows "detectMagnitudeShift fx lg this b c = (this, no_signal)"
proof -
  have r: "fl_div (mean c) (mean b) = Num (7120816245988179 / 2251799813685248)"
    using assms by (simp add: fl_eval binary64_sqrt10)
  have "\<not> js_gt (js_abs (fl_log10 lg (js_abs (Num (7120816245988179 / 2251799813685248)))))
            (fl_lit 0.5)"
    by (subst log_cond_Num) (simp_all add: assms(1))
  then show ?thesis
    unfolding detectMagnitudeShift_def Let_def r using assms(2) by simp
qed

text \<open>
  Means \<open>0.01\<close> and \<open>0.1\<close>, as doubles. Their exact quotient is above ten; the quotient of
  the doubles is ten, which is not above ten, and the shift is a significant one, not a
  severe one.
\<close>

lemma tenfold_threshold:
  assumes "log10_accurate lg" "mean b = fl_lit 0.01" "mean c = fl_lit 0.1"
  shows "detectMagnitudeShift fx lg this b c
           = (push this (''Significant magnitude shift: ''
                 @ fx (fl_mul (fl_div (fl_sub (mean c) (mean b)) (mean b)) (fl_lit 100)) 2
                 @ ''% change''),
              fired 70)"
proof -
  have r: "fl_div (mean c) (mean b) = Num 10"
    using assms by (simp add: fl_eval binary64_hundredth binary64_tenfold)
  have c: "js_gt (js_abs (fl_log10 lg (js_abs (Num 10)))) (fl_lit 0.5)"
    using assms(1) by (intro log_cond_big) simp_all
  have z: "\<not> js_seq (mean b) (Num 0)"
    using assms by (simp add: fl_eval binary64_hundredth)
  have t: "\<not> js_lt (Num 10) (fl_lit 0.1)" "\<not> js_gt (Num 10) (fl_lit 10)"
    "js_gt (Num 10) (fl_lit 2.0)"
    by (simp_all add: fl_eval)
  show ?thesis
    unfolding detectMagnitudeShift_def Let_def r using c z t by simp
qed

section \<open>The summary\<close>

subsection \<open>Sorting finite numbers\<close>

lemma js_round_gt_zero: "js_gt (js_round s r) (Num 0) = (0 < r)"
  using OVF_pos by (auto simp: js_round_def js_gt_def js_zero_def)

lemma js_sub_finite:
  "js_isFinite x \<Longrightarrow> js_isFinite y \<Longrightarrow>
     js_sub x y = NegZero \<and> js_val x = js_val y \<or> js_sub x y = js_round False (js_val x - js_val y)"
  by (cases x; cases y) (auto simp: js_sub_def)

lemma cmp_finite:
  assumes "js_isFinite x" "js_isFinite y"
  shows "js_gt (js_sub x y) (Num 0) = (js_val y < js_val x)"
  using js_sub_finite [OF assms] by (auto simp: js_round_gt_zero) (simp_all add: js_gt_def)

lemma set_js_insert: "set (js_insert x ys) = insert x (set ys)"
  by (induction ys) auto

lemma length_js_insert: "length (js_insert x ys) = Suc (length ys)"
  by (induction ys) auto

lemma sorted_js_insert:
  "js_isFinite x \<Longrightarrow> \<forall>y\<in>set ys. js_isFinite y \<Longrightarrow> sorted (map js_val ys) \<Longrightarrow>
     sorted (map js_val (js_insert x ys))"
proof (induction ys)
  case Nil
  then show ?case by simp
next
  case (Cons y ys)
  then show ?case
    by (auto simp: cmp_finite set_js_insert)
qed

lemma set_js_sort: "set (js_sort xs) = set xs"
  unfolding js_sort_def by (induction xs) (simp_all add: set_js_insert)

lemma length_js_sort: "length (js_sort xs) = length xs"
  unfolding js_sort_def by (induction xs) (simp_all add: length_js_insert)

lemma sorted_js_sort:
  "\<forall>x\<in>set xs. js_isFinite x \<Longrightarrow> sorted (map js_val (js_sort xs))"
proof (induction xs)
  case Nil
  then show ?case by (simp add: js_sort_def)
next
  case (Cons x xs)
  then have "sorted (map js_val (js_sort xs))" by simp
  moreover have "\<forall>y\<in>set (js_sort xs). js_isFinite y"
    using Cons.prems by (simp add: set_js_sort)
  ultimately have "sorted (map js_val (js_insert x (js_sort xs)))"
    using Cons.prems by (intro sorted_js_insert) simp_all
  then show ?case by (simp add: js_sort_def)
qed

lemma js_sort_nth_mono:
  assumes "\<forall>x\<in>set xs. js_isFinite x" "i \<le> j" "j < length xs"
  shows "js_val (js_sort xs ! i) \<le> js_val (js_sort xs ! j)"
proof -
  have "map js_val (js_sort xs) ! i \<le> map js_val (js_sort xs) ! j"
    using assms by (intro sorted_nth_mono sorted_js_sort) (simp_all add: length_js_sort)
  then show ?thesis using assms by (simp add: length_js_sort)
qed

lemma js_sort_nth_finite:
  "\<forall>x\<in>set xs. js_isFinite x \<Longrightarrow> i < length xs \<Longrightarrow> js_isFinite (js_sort xs ! i)"
  by (metis length_js_sort nth_mem set_js_sort)

lemma js_le_finite:
  "js_isFinite x \<Longrightarrow> js_isFinite y \<Longrightarrow> js_le x y = (js_val x \<le> js_val y)"
  by (cases x; cases y) (auto simp: js_le_def)

lemma js_add_finite:
  "js_isFinite x \<Longrightarrow> js_isFinite y \<Longrightarrow>
     js_add x y = NegZero \<and> js_val x + js_val y = 0 \<or> js_add x y = js_round False (js_val x + js_val y)"
  by (cases x; cases y) auto

lemma js_round_cases:
  "js_round s r = PInf \<or> js_round s r = NInf \<or> (js_isFinite (js_round s r) \<and> js_val (js_round s r) = r)"
  by (auto simp: js_round_def js_zero_def)

lemma half_finite:
  assumes "js_isFinite x" "js_isFinite y" "js_isFinite (js_div (js_add x y) (Num 2))"
  shows "js_val (js_div (js_add x y) (Num 2)) = (js_val x + js_val y) / 2"
proof -
  from js_add_finite [OF assms(1,2)] js_round_cases [of False "js_val x + js_val y"]
  consider "js_add x y = PInf" | "js_add x y = NInf"
    | "js_isFinite (js_add x y)" "js_val (js_add x y) = js_val x + js_val y"
    by auto
  then show ?thesis
  proof cases
    case 1
    with assms(3) show ?thesis by (simp add: js_div_def js_inf_def)
  next
    case 2
    with assms(3) show ?thesis by (simp add: js_div_def js_inf_def)
  next
    case 3
    then have "js_div (js_add x y) (Num 2)
                 = js_round (js_sign (js_add x y)) ((js_val x + js_val y) / 2)"
      by (cases "js_add x y") (simp_all add: js_div_def)
    with assms(3) js_round_cases [of "js_sign (js_add x y)" "(js_val x + js_val y) / 2"]
    show ?thesis by auto
  qed
qed

lemma floor_quarter: "nat \<lfloor>real n * 0.25\<rfloor> = n div 4"
proof -
  have "real n * 0.25 = real n / real 4" by simp
  then show ?thesis by (simp only: floor_divide_of_nat_eq nat_int)
qed

lemma floor_three_quarters: "nat \<lfloor>real n * 0.75\<rfloor> = (3 * n) div 4"
proof -
  have "real n * 0.75 = real (3 * n) / real 4" by simp
  then show ?thesis by (simp only: floor_divide_of_nat_eq nat_int)
qed

lemma floor_half: "nat \<lfloor>real n / 2\<rfloor> = n div 2"
proof -
  have "real n / 2 = real n / real 2" by simp
  then show ?thesis by (simp only: floor_divide_of_nat_eq nat_int)
qed

subsection \<open>The fields of the summary\<close>

lemma calculateStats_fields:
  assumes st: "calculateStats data = Inr st" and n: "4 \<le> length data"
  shows "min_stat st = js_sort data ! 0" "max_stat st = js_sort data ! (length data - 1)"
    "p25 st = js_sort data ! (length data div 4)" "p75 st = js_sort data ! (3 * length data div 4)"
    "median st = (if even (length data) then js_div (js_add (js_sort data ! (length data div 2 - 1)) (js_sort data ! (length data div 2))) (Num 2)
                  else js_sort data ! (length data div 2))"
proof -
  from n have ne: "length data \<noteq> 0" by auto
  define R where "R =
     \<lparr>mean = js_div (foldl (\<lambda>sum val. js_add sum val) (Num 0) data) (Num (real (length data))),
      median = (if length data mod 2 = 0
                then js_div (js_add (js_sort data ! (length data div 2 - 1))
                                    (js_sort data ! (length data div 2))) (Num 2)
                else js_sort data ! nat \<lfloor>real (length data) / 2\<rfloor>),
      std_dev = js_sqrt (js_div (foldl (\<lambda>sum val. js_add sum (js_pow2 (js_sub val
                  (js_div (foldl (\<lambda>sum val. js_add sum val) (Num 0) data) (Num (real (length data)))))))
                  (Num 0) data) (Num (real (length data)))),
      min_stat = js_sort data ! 0, max_stat = js_sort data ! (length data - 1),
      p25 = js_sort data ! nat \<lfloor>real (length data) * 0.25\<rfloor>,
      p75 = js_sort data ! nat \<lfloor>real (length data) * 0.75\<rfloor>, count = length data,
      variance = js_div (foldl (\<lambda>sum val. js_add sum (js_pow2 (js_sub val
                  (js_div (foldl (\<lambda>sum val. js_add sum val) (Num 0) data) (Num (real (length data)))))))
                  (Num 0) data) (Num (real (length data)))\<rparr>"
  have "calculateStats data = Inr R"
    unfolding calculateStats_def Let_def R_def using ne by simp
  with st have st: "st = R" by simp
  have par: "(length data mod 2 = 0) = even (length data)" by presburger
  show "min_stat st = js_sort data ! 0" "max_stat st = js_sort data ! (length data - 1)"
    unfolding st by (simp_all add: R_def)
  show "p25 st = js_sort data ! (length data div 4)"
    unfolding st R_def by (simp only: summary.select_convs floor_quarter)
  show "p75 st = js_sort data ! (3 * length data div 4)"
    unfolding st R_def by (simp only: summary.select_convs floor_three_quarters)
  show "median st =
          (if even (length data)
           then js_div (js_add (js_sort data ! (length data div 2 - 1))
                               (js_sort data ! (length data div 2))) (Num 2)
           else js_sort data ! (length data div 2))"
    unfolding st R_def by (simp only: summary.select_convs floor_half par)
qed

lemma stats_1234: "calculateStats [Num 1, Num 2, Num 3, Num 4] = Inr ex_1234_stats"
  by (simp add: calculateStats_def js_sort_def Let_def js_eval js_pow2_def ex_1234_stats_def)

text \<open>
  Claim C9. \<open>calculateStats\<close> fails exactly on the empty sequence; on every other
  sequence it returns a summary. For 1, 2, 3, 4 the summary has mean 2.5, median 2.5,
  variance 1.25 (the sum of squares divided by 4), minimum 1, maximum 4, \<open>p25 = 2\<close> and
  \<open>p75 = 4\<close>.
\<close>

theorem calculateStats_fails_on_empty_only:
  "(\<exists>e. calculateStats data = Inl e) = (data = [])
   \<and> (data \<noteq> [] \<longrightarrow> (\<exists>st. calculateStats data = Inr st \<and> count st = length data))
   \<and> (\<exists>st. calculateStats [Num 1, Num 2, Num 3, Num 4] = Inr st
         \<and> mean st = Num 2.5 \<and> median st = Num 2.5 \<and> variance st = Num 1.25
         \<and> min_stat st = Num 1 \<and> max_stat st = Num 4 \<and> p25 st = Num 2 \<and> p75 st = Num 4)"
proof (intro conjI)
  show "(\<exists>e. calculateStats data = Inl e) = (data = [])"
    by (simp add: calculateStats_def Let_def)
  show "data \<noteq> [] \<longrightarrow> (\<exists>st. calculateStats data = Inr st \<and> count st = length data)"
    by (simp add: calculateStats_def Let_def)
  show "\<exists>st. calculateStats [Num 1, Num 2, Num 3, Num 4] = Inr st
         \<and> mean st = Num 2.5 \<and> median st = Num 2.5 \<and> variance st = Num 1.25
         \<and> min_stat st = Num 1 \<and> max_stat st = Num 4 \<and> p25 st = Num 2 \<and> p75 st = Num 4"
    by (simp add: stats_1234 ex_1234_stats_def)
qed

text \<open>The sequence of the one number 5.\<close>

theorem calculateStats_fails_on_empty_only_witness:
  "\<exists>st. calculateStats [Num 5] = Inr st \<and> count st = 1"
  using calculateStats_fails_on_empty_only [of "[Num 5]"] by simp

subsection \<open>The order of the quartiles\<close>

lemma huge_pos: "0 < huge"
  by (simp add: huge_def)

lemma huge_overflow: "OVF \<le> huge + huge"
  by (simp add: huge_def OVF_def)

lemma huge_finite: "huge < OVF"
  by (simp add: huge_def OVF_def)

lemma js_round_huge:
  "js_round s (2 * huge) = PInf" "js_round s 0 = js_zero s" "js_round s huge = Num huge"
  using huge_overflow OVF_pos huge_finite huge_pos by (simp_all add: js_round_def)

lemma sort_huge: "js_sort ex_huge = ex_huge"
  by (simp add: ex_huge_def js_sort_def js_sub_Num js_round_huge js_zero_def js_gt_def)

lemma sum_huge: "foldl (\<lambda>sum val. js_add sum val) (Num 0) ex_huge = PInf"
  by (simp add: ex_huge_def js_round_huge)

lemma mean_huge: "js_div PInf (Num (real (length ex_huge))) = PInf"
  by (simp add: ex_huge_def js_div_def js_inf_def)

lemma sq_huge: "js_pow2 (js_sub (Num huge) PInf) = PInf"
  by (simp add: js_pow2_def js_sub_def js_mul_def js_inf_def)

lemma sumsq_huge:
  "foldl (\<lambda>sum val. js_add sum (js_pow2 (js_sub val PInf))) (Num 0) ex_huge = PInf"
  by (simp add: ex_huge_def sq_huge)

lemma median_huge: "js_div (js_add (Num huge) (Num huge)) (Num 2) = PInf"
  by (simp add: js_round_huge js_div_def js_inf_def)

lemma stats_huge: "calculateStats ex_huge = Inr ex_huge_stats"
  unfolding calculateStats_def Let_def sort_huge sum_huge mean_huge sumsq_huge
  by (simp add: ex_huge_def js_round_huge js_div_def js_inf_def ex_huge_stats_def)

text \<open>
  Claim C8 says that \<open>min \<le> p25 \<le> median \<le> p75 \<le> max\<close> for every sequence of at least
  four finite numbers. For an even count the median is \<open>(a + b) / 2\<close> of the two middle
  elements, and the sum overflows for large ones: four times \<open>10^308\<close> has the median
  \<open>Infinity\<close>, above \<open>p75 = 10^308\<close>.
\<close>

theorem median_overflow:
  "calculateStats ex_huge = Inr ex_huge_stats
   \<and> \<not> js_le (median ex_huge_stats) (p75 ex_huge_stats)"
  by (simp add: stats_huge ex_huge_stats_def js_le_def)

text \<open>The median of finite numbers is finite unless the sum of the two middle elements overflows.\<close>

lemma js_round_half:
  "js_isFinite (js_round s r) \<Longrightarrow> js_isFinite (js_round s' (r / 2))"
  using OVF_pos by (auto simp: js_round_def js_zero_def split: if_splits)

lemma half_finite_iff:
  assumes "js_isFinite x" "js_isFinite y"
  shows "js_isFinite (js_div (js_add x y) (Num 2)) = js_isFinite (js_add x y)"
proof (cases "js_add x y")
  case (Num r)
  let ?v = "js_val x + js_val y"
  from js_add_finite [OF assms] Num have e: "js_round False ?v = Num r" by auto
  with js_round_cases [of False ?v] have r: "r = ?v" by auto
  from e have "js_isFinite (js_round False ?v)" by simp
  from js_round_half [OF this, of "r < 0"] Num r show ?thesis
    by (simp add: js_div_def)
next
  case NegZero
  then show ?thesis using OVF_pos by (simp add: js_div_def js_round_def js_zero_def)
next
  case PInf
  then show ?thesis by (simp add: js_div_def js_inf_def)
next
  case NInf
  then show ?thesis by (simp add: js_div_def js_inf_def)
next
  case NaN
  then show ?thesis by (simp add: js_div_def)
qed

lemma median_finite_iff:
  assumes fin: "\<forall>x\<in>set data. js_isFinite x"
    and n: "4 \<le> length data"
    and st: "calculateStats data = Inr st"
  shows "js_isFinite (median st) =
           (odd (length data)
            \<or> js_isFinite (js_add (js_sort data ! (length data div 2 - 1))
                                   (js_sort data ! (length data div 2))))"
proof -
  have i: "length data div 2 - 1 < length data" "length data div 2 < length data"
    using n by auto
  note f = js_sort_nth_finite [OF fin i(1)] js_sort_nth_finite [OF fin i(2)]
  show ?thesis
    unfolding calculateStats_fields(5) [OF st n]
    using half_finite_iff [OF f] f(2) by simp
qed

lemma mid_between:
  "(q::real) \<le> a \<Longrightarrow> q \<le> b \<Longrightarrow> a \<le> p \<Longrightarrow> b \<le> p \<Longrightarrow> q \<le> (a + b) / 2 \<and> (a + b) / 2 \<le> p"
  by simp

text \<open>
  Claim C8, amended. For every sequence of at least four finite numbers whose median comes
  out finite (the count is odd, or the sum of the two middle elements does not overflow),
  the summary has \<open>min \<le> p25 \<le> median \<le> p75 \<le> max\<close>; \<open>p25\<close> and \<open>p75\<close> are the sorted
  elements at \<open>floor (n * 0.25)\<close>, which is \<open>n div 4\<close>, and at \<open>floor (n * 0.75)\<close>, which is
  \<open>3 * n div 4\<close>; the median is the middle element for an odd count and the average of the
  two middle elements for an even one.
\<close>

theorem quartiles_ordered:
  assumes fin: "\<forall>x\<in>set data. js_isFinite x"
    and n: "4 \<le> length data"
    and st: "calculateStats data = Inr st"
    and med: "js_isFinite (median st)"
  shows "js_le (min_stat st) (p25 st) \<and> js_le (p25 st) (median st)
         \<and> js_le (median st) (p75 st) \<and> js_le (p75 st) (max_stat st)
         \<and> p25 st = js_sort data ! (length data div 4)
         \<and> p75 st = js_sort data ! (3 * length data div 4)
         \<and> median st =
             (if even (length data)
              then js_div (js_add (js_sort data ! (length data div 2 - 1))
                                  (js_sort data ! (length data div 2))) (Num 2)
              else js_sort data ! (length data div 2))"
proof -
  define s where "s = js_sort data"
  define k where "k = length data"
  note vals = calculateStats_fields [OF st n, folded s_def k_def]
  have f: "js_isFinite (s ! i)" if "i < k" for i
    using that fin js_sort_nth_finite [of data i] by (simp add: s_def k_def)
  have m: "js_val (s ! i) \<le> js_val (s ! j)" if "i \<le> j" "j < k" for i j
    using that fin js_sort_nth_mono [of data i j] by (simp add: s_def k_def)
  have k4: "4 \<le> k" using n by (simp add: k_def)
  have i1: "k div 4 < k" "3 * k div 4 < k" "k div 2 < k" "k div 2 - 1 < k" "0 < k" "k - 1 < k"
    using k4 by presburger+
  have i2: "k div 4 \<le> k div 2" "k div 2 \<le> 3 * k div 4" "0 \<le> k div 4" "3 * k div 4 \<le> k - 1"
    "k div 2 - 1 \<le> 3 * k div 4"
    using k4 by presburger+
  have mid: "js_val (s ! (k div 4)) \<le> js_val (median st)
             \<and> js_val (median st) \<le> js_val (s ! (3 * k div 4))"
  proof (cases "even k")
    case True
    let ?a = "s ! (k div 2 - 1)" and ?b = "s ! (k div 2)"
    have me: "median st = js_div (js_add ?a ?b) (Num 2)"
      using vals(5) True by simp
    have mv: "js_val (median st) = (js_val ?a + js_val ?b) / 2"
      unfolding me
      using med f [OF i1(4)] f [OF i1(3)] unfolding me by (intro half_finite)
    have "k div 4 \<le> k div 2 - 1" using k4 True by presburger
    then have l: "js_val (s ! (k div 4)) \<le> js_val ?a" using m i1(4) by blast
    have l': "js_val (s ! (k div 4)) \<le> js_val ?b" using m i2(1) i1(3) by blast
    have u: "js_val ?a \<le> js_val (s ! (3 * k div 4))" using m i2(5) i1(2) by blast
    have u': "js_val ?b \<le> js_val (s ! (3 * k div 4))" using m i2(2) i1(2) by blast
    show ?thesis unfolding mv using l l' u u' by (rule mid_between)
  next
    case False
    then have mv: "median st = s ! (k div 2)" using vals(5) by simp
    show ?thesis
      unfolding mv using m [OF i2(1) i1(3)] m [OF i2(2) i1(2)] by simp
  qed
  have lo: "js_val (s ! 0) \<le> js_val (s ! (k div 4))"
    using m [OF i2(3) i1(1)] .
  have hi: "js_val (s ! (3 * k div 4)) \<le> js_val (s ! (k - 1))"
    using m [OF i2(4) i1(6)] .
  have "js_le (min_stat st) (p25 st)"
    unfolding vals using lo f [OF i1(5)] f [OF i1(1)] by (simp add: js_le_finite)
  moreover have "js_le (p25 st) (median st)"
    unfolding vals(3) using mid f [OF i1(1)] med by (simp add: js_le_finite)
  moreover have "js_le (median st) (p75 st)"
    unfolding vals(4) using mid f [OF i1(2)] med by (simp add: js_le_finite)
  moreover have "js_le (p75 st) (max_stat st)"
    unfolding vals using hi f [OF i1(2)] f [OF i1(6)] by (simp add: js_le_finite)
  ultimately show ?thesis
    using vals(3,4,5) by (simp add: s_def k_def)
qed

text \<open>The sequence 1, 2, 3, 4: \<open>1 \<le> 2 \<le> 2.5 \<le> 4 \<le> 4\<close>.\<close>

theorem quartiles_ordered_witness:
  "js_le (min_stat ex_1234_stats) (p25 ex_1234_stats)
   \<and> js_le (p25 ex_1234_stats) (median ex_1234_stats)
   \<and> js_le (median ex_1234_stats) (p75 ex_1234_stats)
   \<and> js_le (p75 ex_1234_stats) (max_stat ex_1234_stats)"
proof -
  have "\<forall>x\<in>set [Num 1, Num 2, Num 3, Num 4]. js_isFinite x"
    "4 \<le> length [Num 1, Num 2, Num 3, Num 4]"
    "js_isFinite (median ex_1234_stats)"
    by (simp_all add: ex_1234_stats_def)
  from quartiles_ordered [OF this(1,2) stats_1234 this(3)] show ?thesis by blast
qed

end
